theory Spec2Isabelle
  imports
    Complex_Main
    "HOL-Library.Multiset"
    "HOL-Library.AList"
    "HOL-Library.Char_ord"
    "HOL-Library.List_Lexorder"
    "HOL-Library.Option_ord"
    "HOL-Library.Product_Lexorder"
begin

section \<open>The tables\<close>

text \<open>
  The inventory core of the trading ledger works on five tables of one relational database:
  the inbound and outbound source records, the partners, the inventory projection (one row per
  product model, keyed by it) and the inventory ledger.

  Quantities are integers (JavaScript numbers holding integers, on which \<open>+\<close>, \<open>-\<close> and
  \<open>Math.min\<close> are exact); prices are the decimal values of the stored numbers.  A nullable
  column is an \<open>option\<close>.  Strings are compared bytewise, as the database's default collation
  and JavaScript's relational operators both do on the date strings of the application.
\<close>

datatype ChangeType = INBOUND | OUTBOUND | ADJUSTMENT

text \<open>The columns that inbound and outbound records share; \<open>record_id\<close> is the column \<open>id\<close>.\<close>

record stock_record =
  record_id :: int
  product_model :: "string option"
  quantity :: "int option"
  unit_price :: "rat option"
  total_price :: "rat option"

record inbound_record = stock_record +
  inbound_date :: "string option"

record outbound_record = stock_record +
  outbound_date :: "string option"
  customer_code :: "string option"
  customer_short_name :: "string option"

record partner_record =
  code :: "string option"
  short_name :: "string option"
  full_name :: "string option"

text \<open>
  A ledger row.  \<open>ledger_product_model\<close> and \<open>ledger_date\<close> are the columns
  \<open>product_model\<close> and \<open>date\<close> of the ledger, which are not nullable.
\<close>

record ledger_entry =
  ledger_product_model :: string
  change_qty :: int
  change_type :: ChangeType
  reference_id :: int
  ledger_date :: string

record db =
  inboundRecord :: "inbound_record list"
  outboundRecord :: "outbound_record list"
  partner :: "partner_record list"
  inventory :: "string \<rightharpoonup> int"
  inventoryLedger :: "ledger_entry list"

definition empty_db :: db where
  "empty_db =
     \<lparr>inboundRecord = [], outboundRecord = [], partner = [],
      inventory = Map.empty, inventoryLedger = []\<rparr>"

datatype error =
    TransactionFailure | RecordNotFound | DivisionByZero | InvalidArgument
  | TypeError | ValidationError

section \<open>JavaScript truthiness\<close>

text \<open>
  \<open>!s\<close> holds of a nullable string when it is null or empty, and of a nullable number when
  it is null or zero.  \<open>s || d\<close> is \<open>d\<close> in exactly these cases.
\<close>

definition falsy_string :: "string option \<Rightarrow> bool" where
  "falsy_string s = (case s of None \<Rightarrow> True | Some v \<Rightarrow> v = [])"

definition falsy_number :: "int option \<Rightarrow> bool" where
  "falsy_number n = (case n of None \<Rightarrow> True | Some v \<Rightarrow> v = 0)"

definition or_else :: "string option \<Rightarrow> string \<Rightarrow> string" where
  "or_else s d = (if falsy_string s then d else the s)"

section \<open>The inventory service\<close>

text \<open>
  \<open>prisma.$transaction\<close> runs its body on the database and commits what the body wrote, or
  throws and leaves the database as it was.  Whether some statement of the body (or the commit)
  fails is decided outside the program, so it is a parameter of every operation that opens a
  transaction.
\<close>

definition transaction :: "bool \<Rightarrow> (db \<Rightarrow> 'a \<times> db) \<Rightarrow> db \<Rightarrow> (error + 'a) \<times> db" where
  "transaction fails body d =
     (if fails then (Inl TransactionFailure, d)
      else (case body d of (r, d') \<Rightarrow> (Inr r, d')))"

text \<open>
  \<open>tx.inventory.upsert\<close> on the row of a product model: \<open>update\<close> changes the quantity of
  the row that is there, \<open>create\<close> is the quantity of the row written when there is none.
\<close>

definition inventory_upsert :: "string \<Rightarrow> (int \<Rightarrow> int) \<Rightarrow> int \<Rightarrow> db \<Rightarrow> db" where
  "inventory_upsert pm update create d =
     d\<lparr>inventory := (inventory d)(pm \<mapsto>
          (case inventory d pm of None \<Rightarrow> create | Some q \<Rightarrow> update q))\<rparr>"

definition ledger_create :: "ledger_entry \<Rightarrow> db \<Rightarrow> db" where
  "ledger_create e d = d\<lparr>inventoryLedger := inventoryLedger d @ [e]\<rparr>"

text \<open>
  The ledger row of a source record: the creation of a record and the full recalculation
  write the same columns.  The date is the record's, or the clock's reading when the record
  has none.
\<close>

definition inbound_event :: "string \<Rightarrow> inbound_record \<Rightarrow> ledger_entry" where
  "inbound_event now r =
     \<lparr>ledger_product_model = the (product_model r),
      change_qty = the (quantity r),
      change_type = INBOUND,
      reference_id = record_id r,
      ledger_date = or_else (inbound_date r) now\<rparr>"

definition outbound_event :: "string \<Rightarrow> outbound_record \<Rightarrow> ledger_entry" where
  "outbound_event now r =
     \<lparr>ledger_product_model = the (product_model r),
      change_qty = - the (quantity r),
      change_type = OUTBOUND,
      reference_id = record_id r,
      ledger_date = or_else (outbound_date r) now\<rparr>"

text \<open>The guard \<open>!record.product_model || !record.quantity\<close>.\<close>

definition skipped :: "'a stock_record_scheme \<Rightarrow> bool" where
  "skipped r = (falsy_string (product_model r) \<or> falsy_number (quantity r))"

definition onInboundCreate ::
  "string \<Rightarrow> bool \<Rightarrow> inbound_record \<Rightarrow> db \<Rightarrow> (error + unit) \<times> db" where
  "onInboundCreate now fails r d =
     (if skipped r then (Inr (), d)
      else transaction fails (\<lambda>tx.
        ((), inventory_upsert (the (product_model r))
               (\<lambda>q. q + the (quantity r)) (the (quantity r))
               (ledger_create (inbound_event now r) tx))) d)"

definition onOutboundCreate ::
  "string \<Rightarrow> bool \<Rightarrow> outbound_record \<Rightarrow> db \<Rightarrow> (error + unit) \<times> db" where
  "onOutboundCreate now fails r d =
     (if skipped r then (Inr (), d)
      else transaction fails (\<lambda>tx.
        (let changeQty = - the (quantity r) in
        ((), inventory_upsert (the (product_model r))
               (\<lambda>q. q + changeQty) changeQty
               (ledger_create (outbound_event now r) tx)))) d)"

text \<open>
  Both deletions find the ledger rows of the reference and kind, take each row's quantity off
  the projection (writing a row with the negated quantity where the product has none), and
  delete the ledger rows.
\<close>

definition matches :: "int \<Rightarrow> ChangeType \<Rightarrow> ledger_entry \<Rightarrow> bool" where
  "matches i k e = (reference_id e = i \<and> change_type e = k)"

definition revert_entry :: "ledger_entry \<Rightarrow> db \<Rightarrow> db" where
  "revert_entry e d =
     inventory_upsert (ledger_product_model e) (\<lambda>q. q - change_qty e) (- change_qty e) d"

definition revert :: "int \<Rightarrow> ChangeType \<Rightarrow> db \<Rightarrow> unit \<times> db" where
  "revert i k tx =
     (let entries = filter (matches i k) (inventoryLedger tx);
          tx' = fold revert_entry entries tx
      in ((), tx'\<lparr>inventoryLedger := filter (\<lambda>e. \<not> matches i k e) (inventoryLedger tx')\<rparr>))"

definition onInboundDelete :: "bool \<Rightarrow> int \<Rightarrow> db \<Rightarrow> (error + unit) \<times> db" where
  "onInboundDelete fails i d = transaction fails (revert i INBOUND) d"

definition onOutboundDelete :: "bool \<Rightarrow> int \<Rightarrow> db \<Rightarrow> (error + unit) \<times> db" where
  "onOutboundDelete fails i d = transaction fails (revert i OUTBOUND) d"

text \<open>
  An update awaits the deletion and then the creation, each of which opens a transaction of
  its own; an error thrown by the first ends the update before the second starts.
\<close>

definition onInboundUpdate ::
  "string \<Rightarrow> bool \<Rightarrow> bool \<Rightarrow> inbound_record \<Rightarrow> inbound_record \<Rightarrow> db \<Rightarrow> (error + unit) \<times> db" where
  "onInboundUpdate now fails1 fails2 oldRecord newRecord d =
     (case onInboundDelete fails1 (record_id oldRecord) d of
        (Inl e, d') \<Rightarrow> (Inl e, d')
      | (Inr _, d') \<Rightarrow> onInboundCreate now fails2 newRecord d')"

definition onOutboundUpdate ::
  "string \<Rightarrow> bool \<Rightarrow> bool \<Rightarrow> outbound_record \<Rightarrow> outbound_record \<Rightarrow> db \<Rightarrow> (error + unit) \<times> db" where
  "onOutboundUpdate now fails1 fails2 oldRecord newRecord d =
     (case onOutboundDelete fails1 (record_id oldRecord) d of
        (Inl e, d') \<Rightarrow> (Inl e, d')
      | (Inr _, d') \<Rightarrow> onOutboundCreate now fails2 newRecord d')"

text \<open>
  Two dictionaries of the program are plain JavaScript objects, \<open>totals\<close> in the full
  recalculation and \<open>inventoryState\<close> in the cost matcher, keyed by product model.  Reading
  a key that the object does not hold itself finds what \<open>Object.prototype\<close> holds under that
  name: a function, or under \<open>__proto__\<close> the prototype object.  The table gives each such
  name with the \<open>length\<close> of what is found (a function's number of parameters; the prototype
  object has no \<open>length\<close>).
\<close>

definition object_prototype :: "(string \<times> nat option) list" where
  "object_prototype =
     [(''constructor'', Some 1), (''__defineGetter__'', Some 2), (''__defineSetter__'', Some 2),
      (''hasOwnProperty'', Some 1), (''__lookupGetter__'', Some 1), (''__lookupSetter__'', Some 1),
      (''isPrototypeOf'', Some 1), (''propertyIsEnumerable'', Some 1), (''toString'', Some 0),
      (''valueOf'', Some 0), (''__proto__'', None), (''toLocaleString'', Some 0)]"

definition inherited :: "string \<Rightarrow> nat option option" where
  "inherited name = map_of object_prototype name"

text \<open>
  The full recalculation.  The two \<open>findMany\<close> calls return the source records ordered by
  date; the events are then sorted by \<open>localeCompare\<close> on their dates, a stable sort under the
  collation of the host, whose sort key is the parameter \<open>collate\<close>.  An event has the fields
  of the ledger row it becomes, so it is modelled as that row.

  \<open>totals\<close> holds its own entries in insertion order.  An entry is a number, or a string:
  \<open>(totals[e.model] || 0) + e.qty\<close> is a string when what is read is a function, an object
  or a string.  An assignment to \<open>__proto__\<close> of a string changes nothing; an assignment to
  any other name writes an entry of the object's own.  \<open>Object.entries\<close> lists the
  object's own entries (those with integer-like names first); the rows go into the inventory
  with one \<open>createMany\<close>, so their order does not matter.  \<open>createMany\<close> on the
  inventory refuses a quantity that is a string, and the transaction is rolled back.
\<close>

datatype total = Quantity int | Text

definition add_total :: "ledger_entry \<Rightarrow> (string \<times> total) list \<Rightarrow> (string \<times> total) list" where
  "add_total e totals =
     (let model = ledger_product_model e
      in case map_of totals model of
           Some (Quantity q) \<Rightarrow> AList.update model (Quantity (q + change_qty e)) totals
         | Some Text \<Rightarrow> AList.update model Text totals
         | None \<Rightarrow>
             (case inherited model of
                None \<Rightarrow> AList.update model (Quantity (0 + change_qty e)) totals
              | Some _ \<Rightarrow>
                  if model = ''__proto__'' then totals else AList.update model Text totals))"

text \<open>
  The number that an entry holds.  The recalculation reads it only when no entry is a string.
\<close>

definition quantity_of :: "total \<Rightarrow> int" where
  "quantity_of v = (case v of Quantity q \<Rightarrow> q | Text \<Rightarrow> 0)"

definition rebuild ::
  "(string \<Rightarrow> 'k::linorder) \<Rightarrow> string \<Rightarrow> db \<Rightarrow> error + (nat \<times> nat) \<times> db" where
  "rebuild collate now tx =
     (let tx1 = tx\<lparr>inventory := Map.empty, inventoryLedger := []\<rparr>;
          inbounds = sort_key inbound_date (inboundRecord tx1);
          outbounds = sort_key outbound_date (outboundRecord tx1);
          events = map (inbound_event now) (filter (\<lambda>r. \<not> skipped r) inbounds)
                 @ map (outbound_event now) (filter (\<lambda>r. \<not> skipped r) outbounds);
          ledgerData = sort_key (\<lambda>e. collate (ledger_date e)) events;
          totals = fold add_total ledgerData [];
          tx2 = (if ledgerData \<noteq> []
                 then tx1\<lparr>inventoryLedger := inventoryLedger tx1 @ ledgerData\<rparr> else tx1);
          invData = totals
      in if invData \<noteq> [] \<and> Text \<in> snd ` set invData then Inl ValidationError
         else
           (let tx3 = (if invData \<noteq> []
                       then tx2\<lparr>inventory :=
                                 inventory tx2 ++ map_of (map (map_prod id quantity_of) invData)\<rparr>
                       else tx2)
            in Inr ((length ledgerData, length invData), tx3)))"

text \<open>
  The transaction of the recalculation fails when the database fails or when its body throws;
  either way the database is left as it was.
\<close>

definition recalculateAll ::
  "(string \<Rightarrow> 'k::linorder) \<Rightarrow> string \<Rightarrow> bool \<Rightarrow> db \<Rightarrow> (error + nat \<times> nat) \<times> db" where
  "recalculateAll collate now fails d =
     (if fails then (Inl TransactionFailure, d)
      else (case rebuild collate now d of
              Inl e \<Rightarrow> (Inl e, d)
            | Inr (r, d') \<Rightarrow> (Inr r, d')))"

section \<open>The route handlers that maintain the source records\<close>

text \<open>
  \<open>POST\<close>, \<open>PUT\<close> and \<open>DELETE\<close> on \<open>/api/inbound\<close> and \<open>/api/outbound\<close> write the source
  record and then call the inventory service.  The database gives a created record a key that
  no row of its table has; \<open>PUT\<close> and \<open>DELETE\<close> answer 404 when no row has the key.  The
  flags say which transaction of the inventory service fails.
\<close>

definition next_id :: "'a stock_record_scheme list \<Rightarrow> int" where
  "next_id rs = fold max (map record_id rs) 0 + 1"

definition find_record :: "int \<Rightarrow> 'a stock_record_scheme list \<Rightarrow> 'a stock_record_scheme option" where
  "find_record i rs = List.find (\<lambda>r. record_id r = i) rs"

definition post_inbound :: "string \<Rightarrow> bool \<Rightarrow> inbound_record \<Rightarrow> db \<Rightarrow> (error + unit) \<times> db" where
  "post_inbound now fails body d =
     (let result = body\<lparr>record_id := next_id (inboundRecord d)\<rparr>
      in onInboundCreate now fails result (d\<lparr>inboundRecord := inboundRecord d @ [result]\<rparr>))"

definition put_inbound ::
  "string \<Rightarrow> bool \<Rightarrow> bool \<Rightarrow> int \<Rightarrow> inbound_record \<Rightarrow> db \<Rightarrow> (error + unit) \<times> db" where
  "put_inbound now fails1 fails2 i body d =
     (case find_record i (inboundRecord d) of
        None \<Rightarrow> (Inl RecordNotFound, d)
      | Some oldRecord \<Rightarrow>
          (let result = body\<lparr>record_id := i\<rparr>
           in onInboundUpdate now fails1 fails2 oldRecord result
                (d\<lparr>inboundRecord :=
                     map (\<lambda>r. if record_id r = i then result else r) (inboundRecord d)\<rparr>)))"

definition delete_inbound :: "bool \<Rightarrow> int \<Rightarrow> db \<Rightarrow> (error + unit) \<times> db" where
  "delete_inbound fails i d =
     (case find_record i (inboundRecord d) of
        None \<Rightarrow> (Inl RecordNotFound, d)
      | Some _ \<Rightarrow>
          onInboundDelete fails i
            (d\<lparr>inboundRecord := filter (\<lambda>r. record_id r \<noteq> i) (inboundRecord d)\<rparr>))"

definition post_outbound :: "string \<Rightarrow> bool \<Rightarrow> outbound_record \<Rightarrow> db \<Rightarrow> (error + unit) \<times> db" where
  "post_outbound now fails body d =
     (let result = body\<lparr>record_id := next_id (outboundRecord d)\<rparr>
      in onOutboundCreate now fails result (d\<lparr>outboundRecord := outboundRecord d @ [result]\<rparr>))"

definition put_outbound ::
  "string \<Rightarrow> bool \<Rightarrow> bool \<Rightarrow> int \<Rightarrow> outbound_record \<Rightarrow> db \<Rightarrow> (error + unit) \<times> db" where
  "put_outbound now fails1 fails2 i body d =
     (case find_record i (outboundRecord d) of
        None \<Rightarrow> (Inl RecordNotFound, d)
      | Some oldRecord \<Rightarrow>
          (let result = body\<lparr>record_id := i\<rparr>
           in onOutboundUpdate now fails1 fails2 oldRecord result
                (d\<lparr>outboundRecord :=
                     map (\<lambda>r. if record_id r = i then result else r) (outboundRecord d)\<rparr>)))"

definition delete_outbound :: "bool \<Rightarrow> int \<Rightarrow> db \<Rightarrow> (error + unit) \<times> db" where
  "delete_outbound fails i d =
     (case find_record i (outboundRecord d) of
        None \<Rightarrow> (Inl RecordNotFound, d)
      | Some _ \<Rightarrow>
          onOutboundDelete fails i
            (d\<lparr>outboundRecord := filter (\<lambda>r. record_id r \<noteq> i) (outboundRecord d)\<rparr>))"

section \<open>Sequences of mutations\<close>

text \<open>
  A call of the inventory service, with the clock reading it sees and the outcome of each
  transaction it opens.
\<close>

datatype mutation =
    InboundCreate string bool inbound_record
  | OutboundCreate string bool outbound_record
  | InboundDelete bool int
  | OutboundDelete bool int
  | InboundUpdate string bool bool inbound_record inbound_record
  | OutboundUpdate string bool bool outbound_record outbound_record

fun mutate :: "mutation \<Rightarrow> db \<Rightarrow> (error + unit) \<times> db" where
  "mutate (InboundCreate now f r) d = onInboundCreate now f r d"
| "mutate (OutboundCreate now f r) d = onOutboundCreate now f r d"
| "mutate (InboundDelete f i) d = onInboundDelete f i d"
| "mutate (OutboundDelete f i) d = onOutboundDelete f i d"
| "mutate (InboundUpdate now f1 f2 r r') d = onInboundUpdate now f1 f2 r r' d"
| "mutate (OutboundUpdate now f1 f2 r r') d = onOutboundUpdate now f1 f2 r r' d"

definition mutations :: "mutation list \<Rightarrow> db \<Rightarrow> db" where
  "mutations ms d = fold (\<lambda>m d. snd (mutate m d)) ms d"

text \<open>The sum of \<open>change_qty\<close> over the ledger rows of a product.\<close>

definition ledger_sum :: "db \<Rightarrow> string \<Rightarrow> int" where
  "ledger_sum d p =
     sum_list (map change_qty (filter (\<lambda>e. ledger_product_model e = p) (inventoryLedger d)))"

text \<open>
  The projection invariant: a product with a row has the sum of its ledger rows as quantity,
  and a product without a row has no ledger row.
\<close>

definition projection_invariant :: "db \<Rightarrow> bool" where
  "projection_invariant d =
     (\<forall>p. case inventory d p of
            Some q \<Rightarrow> q = ledger_sum d p
          | None \<Rightarrow> filter (\<lambda>e. ledger_product_model e = p) (inventoryLedger d) = [])"

text \<open>
  Reading the quantity of a product off the projection: a product without a row has none in
  stock (the inventory page shows \<open>quantity ?? 0\<close>).
\<close>

definition projection_quantity :: "db \<Rightarrow> string \<Rightarrow> int" where
  "projection_quantity d p = (case inventory d p of None \<Rightarrow> 0 | Some q \<Rightarrow> q)"

text \<open>
  The requests that change the source records, each served with no failing transaction, and
  the database after a sequence of them.
\<close>

datatype request =
    PostInbound string inbound_record
  | PutInbound string int inbound_record
  | DeleteInbound int
  | PostOutbound string outbound_record
  | PutOutbound string int outbound_record
  | DeleteOutbound int

fun serve :: "request \<Rightarrow> db \<Rightarrow> db" where
  "serve (PostInbound now body) d = snd (post_inbound now False body d)"
| "serve (PutInbound now i body) d = snd (put_inbound now False False i body d)"
| "serve (DeleteInbound i) d = snd (delete_inbound False i d)"
| "serve (PostOutbound now body) d = snd (post_outbound now False body d)"
| "serve (PutOutbound now i body) d = snd (put_outbound now False False i body d)"
| "serve (DeleteOutbound i) d = snd (delete_outbound False i d)"

definition serve_all :: "request list \<Rightarrow> db \<Rightarrow> db" where
  "serve_all rs d = fold serve rs d"

section \<open>The decimal calculator\<close>

text \<open>
  A \<open>Decimal\<close> of decimal.js is a finite decimal number, an infinity (the flag says whether
  it is the negative one) or NaN; the same values stand for JavaScript numbers passed to the
  calculator.  The library is configured with a precision of 20 significant digits and
  rounding mode \<open>ROUND_HALF_UP\<close> (ties away from zero): the result of an arithmetic operation
  is the exact result rounded so (\<open>finalise\<close>).  Signed zeros are not told apart.
\<close>

datatype Decimal = Finite rat | Infinite bool | NaN

fun digits10 :: "nat \<Rightarrow> nat" where
  "digits10 n = (if n = 0 then 0 else Suc (digits10 (n div 10)))"

text \<open>The decimal exponent of a non-zero number: \<open>10 ^ e \<le> \<bar>x\<bar> < 10 ^ (e + 1)\<close>.\<close>

definition exponent10 :: "rat \<Rightarrow> int" where
  "exponent10 x =
     (case quotient_of \<bar>x\<bar> of (a, b) \<Rightarrow>
        if b \<le> a then int (digits10 (nat (a div b))) - 1
        else - int (digits10 (nat ((b - 1) div a))))"

definition pow10 :: "int \<Rightarrow> rat" where
  "pow10 k = (if 0 \<le> k then 10 ^ nat k else 1 / 10 ^ nat (- k))"

definition round_half_up :: "rat \<Rightarrow> int" where
  "round_half_up x = (if 0 \<le> x then \<lfloor>x + 1 / 2\<rfloor> else - \<lfloor>- x + 1 / 2\<rfloor>)"

definition finalise :: "nat \<Rightarrow> rat \<Rightarrow> rat" where
  "finalise sd x =
     (if x = 0 then 0
      else (let k = exponent10 x - (int sd - 1)
            in of_int (round_half_up (x / pow10 k)) * pow10 k))"

definition precision :: nat where
  "precision = 20"

fun plus_decimal :: "Decimal \<Rightarrow> Decimal \<Rightarrow> Decimal" where
  "plus_decimal NaN _ = NaN"
| "plus_decimal _ NaN = NaN"
| "plus_decimal (Infinite m) (Infinite n) = (if m = n then Infinite m else NaN)"
| "plus_decimal (Infinite m) (Finite _) = Infinite m"
| "plus_decimal (Finite _) (Infinite n) = Infinite n"
| "plus_decimal (Finite x) (Finite y) = Finite (finalise precision (x + y))"

fun times_decimal :: "Decimal \<Rightarrow> Decimal \<Rightarrow> Decimal" where
  "times_decimal NaN _ = NaN"
| "times_decimal _ NaN = NaN"
| "times_decimal (Infinite m) (Infinite n) = Infinite (m \<noteq> n)"
| "times_decimal (Infinite m) (Finite y) = (if y = 0 then NaN else Infinite (m \<noteq> (y < 0)))"
| "times_decimal (Finite x) (Infinite n) = (if x = 0 then NaN else Infinite ((x < 0) \<noteq> n))"
| "times_decimal (Finite x) (Finite y) = Finite (finalise precision (x * y))"

fun div_decimal :: "Decimal \<Rightarrow> Decimal \<Rightarrow> Decimal" where
  "div_decimal NaN _ = NaN"
| "div_decimal _ NaN = NaN"
| "div_decimal (Infinite m) (Infinite n) = NaN"
| "div_decimal (Infinite m) (Finite y) = Infinite (m \<noteq> (y < 0))"
| "div_decimal (Finite x) (Infinite n) = Finite 0"
| "div_decimal (Finite x) (Finite y) =
     (if y = 0 then (if x = 0 then NaN else Infinite (x < 0))
      else Finite (finalise precision (x / y)))"

fun isZero :: "Decimal \<Rightarrow> bool" where
  "isZero (Finite x) = (x = 0)"
| "isZero _ = False"

text \<open>
  What the calculator is given: \<open>number | string | Decimal | null | undefined\<close>.  How
  decimal.js reads a string is the parameter \<open>parse\<close>, \<open>None\<close> where it throws.
\<close>

datatype decimal_input = Null | Undefined | Number Decimal | String string | DecimalObject Decimal

fun decimal :: "(string \<Rightarrow> Decimal option) \<Rightarrow> decimal_input \<Rightarrow> error + Decimal" where
  "decimal parse Null = Inr (Finite 0)"
| "decimal parse Undefined = Inr (Finite 0)"
| "decimal parse (Number v) = Inr v"
| "decimal parse (DecimalObject v) = Inr v"
| "decimal parse (String s) = (case parse s of None \<Rightarrow> Inl InvalidArgument | Some v \<Rightarrow> Inr v)"

definition divide ::
  "(string \<Rightarrow> Decimal option) \<Rightarrow> decimal_input \<Rightarrow> decimal_input \<Rightarrow> error + Decimal" where
  "divide parse a b =
     (case decimal parse b of
        Inl e \<Rightarrow> Inl e
      | Inr divisor \<Rightarrow>
          if isZero divisor then Inl DivisionByZero
          else (case decimal parse a of
                  Inl e \<Rightarrow> Inl e
                | Inr dividend \<Rightarrow> Inr (div_decimal dividend divisor)))"

text \<open>
  The cost matcher calls \<open>add\<close> and \<open>multiply\<close> on numbers and on Decimals only, which
  \<open>decimal\<close> takes as they are.
\<close>

definition add :: "Decimal \<Rightarrow> Decimal \<Rightarrow> Decimal" where
  "add a b = plus_decimal a b"

definition multiply :: "Decimal \<Rightarrow> Decimal \<Rightarrow> Decimal" where
  "multiply a b = times_decimal a b"

text \<open>
  A JavaScript number is a double: a finite number is \<open>m * 2 ^ k\<close> with \<open>\<bar>m\<bar> < 2 ^ 53\<close>
  and \<open>k \<ge> -1074\<close>, below \<open>2 ^ 1024\<close> in magnitude.  \<open>parseFloat\<close> of the decimal numeral
  of \<open>x\<close> is the double nearest to \<open>x\<close>, the one with the even \<open>m\<close> when two are equally
  near, and an infinity from \<open>2 ^ 1024\<close> on.
\<close>

text \<open>The number of binary digits of a positive integer.\<close>

function bits :: "int \<Rightarrow> int" where
  "bits n = (if n \<le> 0 then 0 else 1 + bits (n div 2))"
  by pat_completeness auto
termination
  by (relation "measure nat") auto

declare bits.simps [simp del]

text \<open>The binary exponent of a non-zero number: \<open>2 ^ e \<le> \<bar>x\<bar> < 2 ^ (e + 1)\<close>.\<close>

definition exponent2 :: "rat \<Rightarrow> int" where
  "exponent2 x =
     (case quotient_of \<bar>x\<bar> of (a, b) \<Rightarrow>
        if b \<le> a then bits (a div b) - 1
        else - bits ((b - 1) div a))"

definition pow2 :: "int \<Rightarrow> rat" where
  "pow2 k = (if 0 \<le> k then 2 ^ nat k else 1 / 2 ^ nat (- k))"

definition round_half_even :: "rat \<Rightarrow> int" where
  "round_half_even x =
     (let f = \<lfloor>x\<rfloor>; d = x - of_int f
      in if d < 1 / 2 then f else if 1 / 2 < d then f + 1 else if even f then f else f + 1)"

definition parseFloat :: "rat \<Rightarrow> Decimal" where
  "parseFloat x =
     (if x = 0 then Finite 0
      else (let k = max (exponent2 x) (- 1022) - 52;
                y = of_int (round_half_even (x / pow2 k)) * pow2 k
            in if 2 ^ 1024 \<le> \<bar>y\<bar> then Infinite (x < 0) else Finite y))"

text \<open>
  \<open>toFixed\<close> prints a finite Decimal rounded half up to the given number of decimal places;
  \<open>toNumber\<close> reads the string back with \<open>parseFloat\<close>.
\<close>

definition toFixed :: "rat \<Rightarrow> nat \<Rightarrow> rat" where
  "toFixed x decimalPlaces = of_int (round_half_up (x * 10 ^ decimalPlaces)) / 10 ^ decimalPlaces"

fun toNumber :: "Decimal \<Rightarrow> nat \<Rightarrow> Decimal" where
  "toNumber (Finite x) decimalPlaces = parseFloat (toFixed x decimalPlaces)"
| "toNumber v decimalPlaces = v"

section \<open>The FIFO cost matcher\<close>

record Batch =
  quantity_remaining :: int
  batch_unit_price :: rat

text \<open>A row of the result: the outbound record with its cost, sale amount and partner.\<close>

record processed_record = outbound_record +
  cost_amount :: Decimal
  sales_amount :: rat
  customer_full_name :: "string option"
  resolved_customer_code :: "string option"

text \<open>\<open>Number(v)\<close> and \<open>Number(v || 0)\<close> of a nullable stored number: null reads as zero.\<close>

definition number_of :: "rat option \<Rightarrow> rat" where
  "number_of v = (case v of None \<Rightarrow> 0 | Some x \<Rightarrow> x)"

text \<open>
  The \<open>while\<close> loop that serves one outbound record from the queue of its product.  The
  flag is \<open>isTarget && partner\<close>: only then is the cost of a portion added.  The loop ends
  with the batches left, the quantity still to fulfil and the cost.
\<close>

function consume :: "bool \<Rightarrow> Batch list \<Rightarrow> int \<Rightarrow> Decimal \<Rightarrow> Batch list \<times> int \<times> Decimal" where
  "consume counted [] qtyToFulfill currentRecordCost = ([], qtyToFulfill, currentRecordCost)"
| "consume counted (batch # batches) qtyToFulfill currentRecordCost =
     (if 0 < qtyToFulfill then
        (let take = min (quantity_remaining batch) qtyToFulfill;
             cost = (if counted
                     then add currentRecordCost
                            (multiply (Finite (of_int take)) (Finite (batch_unit_price batch)))
                     else currentRecordCost)
         in if quantity_remaining batch - take \<le> 0
            then consume counted batches (qtyToFulfill - take) cost
            else consume counted
                   (batch\<lparr>quantity_remaining := quantity_remaining batch - take\<rparr> # batches)
                   (qtyToFulfill - take) cost)
      else (batch # batches, qtyToFulfill, currentRecordCost))"
  by pat_completeness auto
termination
  by (relation "measure (\<lambda>(c, bs, q, k). 2 * length bs + (if 0 < q then 1 else 0))")
     (auto simp: min_def split: if_splits)

text \<open>
  Queueing the batch of an inbound record.  \<open>inventoryState[model]\<close> is the product's own
  array, or what \<open>Object.prototype\<close> holds under the name, which is truthy and has no
  \<open>push\<close>: the call throws a TypeError.
\<close>

definition seed ::
  "inbound_record \<Rightarrow> (string \<rightharpoonup> Batch list) \<Rightarrow> error + (string \<rightharpoonup> Batch list)" where
  "seed inRecord inventoryState =
     (if skipped inRecord then Inr inventoryState
      else
        (let model = the (product_model inRecord);
             batch = \<lparr>quantity_remaining = the (quantity inRecord),
                      batch_unit_price = number_of (unit_price inRecord)\<rparr>
         in case inventoryState model of
              Some bs \<Rightarrow> Inr (inventoryState(model \<mapsto> bs @ [batch]))
            | None \<Rightarrow>
                (case inherited model of
                   None \<Rightarrow> Inr (inventoryState(model \<mapsto> [] @ [batch]))
                 | Some _ \<Rightarrow> Inl TypeError)))"

text \<open>A \<open>for\<close> loop whose body can throw: the first error ends the loop.\<close>

fun for_each :: "('a \<Rightarrow> 's \<Rightarrow> error + 's) \<Rightarrow> 'a list \<Rightarrow> 's \<Rightarrow> error + 's" where
  "for_each body [] s = Inr s"
| "for_each body (x # xs) s =
     (case body x s of Inl e \<Rightarrow> Inl e | Inr s' \<Rightarrow> for_each body xs s')"

definition partner_maps ::
  "partner_record list \<Rightarrow> (string \<rightharpoonup> partner_record) \<times> (string \<rightharpoonup> partner_record)" where
  "partner_maps partners =
     fold (\<lambda>p (partnerCodeMap, partnerShortMap).
            ((if falsy_string (code p) then partnerCodeMap
              else partnerCodeMap(the (code p) \<mapsto> p)),
             (if falsy_string (short_name p) then partnerShortMap
              else partnerShortMap(the (short_name p) \<mapsto> p))))
          partners (Map.empty, Map.empty)"

definition resolve_partner ::
  "(string \<rightharpoonup> partner_record) \<times> (string \<rightharpoonup> partner_record) \<Rightarrow> outbound_record
     \<Rightarrow> partner_record option" where
  "resolve_partner maps outRecord =
     (case maps of (partnerCodeMap, partnerShortMap) \<Rightarrow>
        if \<not> falsy_string (customer_code outRecord)
           \<and> partnerCodeMap (the (customer_code outRecord)) \<noteq> None
        then partnerCodeMap (the (customer_code outRecord))
        else if \<not> falsy_string (customer_short_name outRecord)
                \<and> partnerShortMap (the (customer_short_name outRecord)) \<noteq> None
        then partnerShortMap (the (customer_short_name outRecord))
        else None)"

definition in_period :: "string \<Rightarrow> string \<Rightarrow> outbound_record \<Rightarrow> bool" where
  "in_period startDate endDate outRecord =
     (case outbound_date outRecord of
        None \<Rightarrow> False
      | Some dt \<Rightarrow> startDate \<le> dt \<and> dt \<le> endDate)"

definition processed ::
  "outbound_record \<Rightarrow> Decimal \<Rightarrow> partner_record \<Rightarrow> processed_record" where
  "processed outRecord currentRecordCost p =
     \<lparr>record_id = record_id outRecord,
      product_model = product_model outRecord,
      quantity = quantity outRecord,
      unit_price = unit_price outRecord,
      total_price = total_price outRecord,
      outbound_date = outbound_date outRecord,
      customer_code = customer_code outRecord,
      customer_short_name = customer_short_name outRecord,
      cost_amount = toNumber currentRecordCost 2,
      sales_amount = number_of (total_price outRecord),
      customer_full_name = full_name p,
      resolved_customer_code = code p\<rparr>"

text \<open>
  One turn of the loop over the outbound records.  \<open>batches\<close> is the product's own array in
  \<open>inventoryState\<close>, changed in place; or a fresh empty array when nothing is found under the
  name; or what \<open>Object.prototype\<close> holds under the name.  In the last case the \<open>while\<close>
  loop, entered when the quantity is positive, leaves at once when the \<open>length\<close> found is 0
  and otherwise reads \<open>quantity_remaining\<close> of the undefined \<open>batches[0]\<close>, a TypeError.
\<close>

definition process_outbound ::
  "string \<Rightarrow> string \<Rightarrow> (string \<rightharpoonup> partner_record) \<times> (string \<rightharpoonup> partner_record)
     \<Rightarrow> outbound_record
     \<Rightarrow> (string \<rightharpoonup> Batch list) \<times> processed_record list
     \<Rightarrow> error + (string \<rightharpoonup> Batch list) \<times> processed_record list" where
  "process_outbound startDate endDate maps outRecord st =
     (case st of (inventoryState, processedRecords) \<Rightarrow>
        if skipped outRecord then Inr (inventoryState, processedRecords)
        else
          (let model = the (product_model outRecord);
               qtyToFulfill = the (quantity outRecord);
               isTarget = in_period startDate endDate outRecord;
               partner = resolve_partner maps outRecord;
               push = (\<lambda>currentRecordCost.
                         if isTarget \<and> partner \<noteq> None
                         then processedRecords
                              @ [processed outRecord currentRecordCost (the partner)]
                         else processedRecords)
           in case inventoryState model of
                Some batches \<Rightarrow>
                  (case consume (isTarget \<and> partner \<noteq> None) batches qtyToFulfill (Finite 0) of
                     (batches', qtyLeft, currentRecordCost) \<Rightarrow>
                       Inr (inventoryState(model \<mapsto> batches'), push currentRecordCost))
              | None \<Rightarrow>
                  (case inherited model of
                     None \<Rightarrow>
                       (case consume (isTarget \<and> partner \<noteq> None) [] qtyToFulfill (Finite 0) of
                          (batches', qtyLeft, currentRecordCost) \<Rightarrow>
                            Inr (inventoryState, push currentRecordCost))
                   | Some len \<Rightarrow>
                       if 0 < qtyToFulfill \<and> len \<noteq> Some 0 then Inl TypeError
                       else Inr (inventoryState, push (Finite 0)))))"

text \<open>
  The queries: inbound records with a positive quantity by date and key; outbound records with
  a positive quantity dated up to \<open>endDate\<close>, by date and key.  A null date compares with
  nothing, and sorts first.
\<close>

definition positive_quantity :: "'a stock_record_scheme \<Rightarrow> bool" where
  "positive_quantity r = (case quantity r of None \<Rightarrow> False | Some q \<Rightarrow> 0 < q)"

definition dated_up_to :: "string \<Rightarrow> outbound_record \<Rightarrow> bool" where
  "dated_up_to endDate r = (case outbound_date r of None \<Rightarrow> False | Some dt \<Rightarrow> dt \<le> endDate)"

definition fifo_simulation ::
  "string \<Rightarrow> string \<Rightarrow> db \<Rightarrow> error + (string \<rightharpoonup> Batch list) \<times> processed_record list" where
  "fifo_simulation startDate endDate d =
     (let allInbound = sort_key (\<lambda>r. (inbound_date r, record_id r))
                         (filter positive_quantity (inboundRecord d));
          allOutbound = sort_key (\<lambda>r. (outbound_date r, record_id r))
                          (filter (\<lambda>r. positive_quantity r \<and> dated_up_to endDate r)
                             (outboundRecord d));
          maps = partner_maps (partner d)
      in case for_each seed allInbound Map.empty of
           Inl e \<Rightarrow> Inl e
         | Inr inventoryState \<Rightarrow>
             for_each (process_outbound startDate endDate maps) allOutbound (inventoryState, []))"

definition calculateFIFOData :: "string \<Rightarrow> string \<Rightarrow> db \<Rightarrow> error + processed_record list" where
  "calculateFIFOData startDate endDate d =
     (case fifo_simulation startDate endDate d of
        Inl e \<Rightarrow> Inl e
      | Inr (inventoryState, processedRecords) \<Rightarrow> Inr processedRecords)"

section \<open>The ledger against its source records\<close>

text \<open>
  A ledger row without its date (the date of a record that has none is the clock's reading,
  which differs from one run to the next), and the rows that the source records stand for:
  one per inbound or outbound record that is not skipped, with the quantity of an outbound
  record negated.
\<close>

type_synonym undated_entry = "string \<times> int \<times> ChangeType \<times> int"

definition undated :: "ledger_entry \<Rightarrow> undated_entry" where
  "undated e = (ledger_product_model e, change_qty e, change_type e, reference_id e)"

definition source_entries :: "db \<Rightarrow> undated_entry multiset" where
  "source_entries d =
     image_mset (\<lambda>r. (the (product_model r), the (quantity r), INBOUND, record_id r))
       (filter_mset (\<lambda>r. \<not> skipped r) (mset (inboundRecord d)))
   + image_mset (\<lambda>r. (the (product_model r), - the (quantity r), OUTBOUND, record_id r))
       (filter_mset (\<lambda>r. \<not> skipped r) (mset (outboundRecord d)))"

text \<open>
  A database whose ledger has been kept in step with its source records: the projection
  invariant holds, the ledger holds exactly the rows of the source records, and the keys of
  each source table are distinct.
\<close>

definition maintained :: "db \<Rightarrow> bool" where
  "maintained d \<longleftrightarrow>
     projection_invariant d \<and>
     image_mset undated (mset (inventoryLedger d)) = source_entries d \<and>
     distinct (map record_id (inboundRecord d)) \<and>
     distinct (map record_id (outboundRecord d))"

text \<open>
  A record that meets none of the names that a plain object inherits: it is skipped, or its
  product model is no name of a member of \<open>Object.prototype\<close>.
\<close>

definition regular :: "'a stock_record_scheme \<Rightarrow> bool" where
  "regular r = (skipped r \<or> inherited (the (product_model r)) = None)"

definition regular_tables :: "db \<Rightarrow> bool" where
  "regular_tables d = (list_all regular (inboundRecord d) \<and> list_all regular (outboundRecord d))"

text \<open>Auxiliary notions for sums over ledger rows and over source records.\<close>

definition qty_for :: "string \<Rightarrow> undated_entry \<Rightarrow> int" where
  "qty_for p t = (if fst t = p then fst (snd t) else 0)"

definition kept :: "int \<Rightarrow> ChangeType \<Rightarrow> undated_entry \<Rightarrow> bool" where
  "kept i k t = (\<not> (snd (snd (snd t)) = i \<and> fst (snd (snd t)) = k))"

definition stock_data :: "'a stock_record_scheme \<Rightarrow> string option \<times> int option" where
  "stock_data r = (product_model r, quantity r)"

definition contribution :: "string \<Rightarrow> string option \<times> int option \<Rightarrow> int" where
  "contribution p t =
     (if \<not> (falsy_string (fst t) \<or> falsy_number (snd t)) \<and> the (fst t) = p
      then the (snd t) else 0)"

section \<open>The queue of a product\<close>

text \<open>
  Notions for stating what the matcher does to a queue: the quantity left in it, the cost of
  taking all of it (summed and multiplied by the decimal calculator, in queue order), queues
  and states none of whose batches is used up, the queue that a record is served from, and
  the state with that queue replaced.
\<close>

definition total_remaining :: "Batch list \<Rightarrow> int" where
  "total_remaining bs = sum_list (map quantity_remaining bs)"

definition batch_cost :: "Batch list \<Rightarrow> Decimal \<Rightarrow> Decimal" where
  "batch_cost bs c =
     fold (\<lambda>b c. add c (multiply (Finite (of_int (quantity_remaining b))) (Finite (batch_unit_price b))))
       bs c"

definition positive_batches :: "Batch list \<Rightarrow> bool" where
  "positive_batches bs = list_all (\<lambda>b. 0 < quantity_remaining b) bs"

definition positive_state :: "(string \<rightharpoonup> Batch list) \<Rightarrow> bool" where
  "positive_state st = (\<forall>m bs. st m = Some bs \<longrightarrow> positive_batches bs)"

definition queue_of :: "(string \<rightharpoonup> Batch list) \<Rightarrow> outbound_record \<Rightarrow> Batch list" where
  "queue_of st r = (case st (the (product_model r)) of None \<Rightarrow> [] | Some bs \<Rightarrow> bs)"

definition with_queue ::
  "(string \<rightharpoonup> Batch list) \<Rightarrow> outbound_record \<Rightarrow> Batch list \<Rightarrow> (string \<rightharpoonup> Batch list)" where
  "with_queue st r bs =
     (if st (the (product_model r)) = None then st else st(the (product_model r) \<mapsto> bs))"

section \<open>Example data\<close>

definition inbound_X10 :: inbound_record where
  "inbound_X10 =
     \<lparr>record_id = 1, product_model = Some ''X'', quantity = Some 10, unit_price = Some 5,
      total_price = Some 50, inbound_date = Some ''2024-01-01''\<rparr>"

definition inbound_Y4 :: inbound_record where
  "inbound_Y4 =
     \<lparr>record_id = 1, product_model = Some ''Y'', quantity = Some 4, unit_price = Some 5,
      total_price = Some 20, inbound_date = Some ''2024-01-01''\<rparr>"

definition outbound_X3 :: outbound_record where
  "outbound_X3 =
     \<lparr>record_id = 1, product_model = Some ''X'', quantity = Some 3, unit_price = Some 9,
      total_price = Some 27, outbound_date = None, customer_code = None,
      customer_short_name = None\<rparr>"

definition inbound_negative :: inbound_record where
  "inbound_negative =
     \<lparr>record_id = 7, product_model = Some ''X'', quantity = Some (- 5), unit_price = Some 5,
      total_price = Some (- 25), inbound_date = Some ''2024-01-01''\<rparr>"

definition inbound_zero :: inbound_record where
  "inbound_zero =
     \<lparr>record_id = 8, product_model = Some ''X'', quantity = Some 0, unit_price = Some 5,
      total_price = Some 0, inbound_date = Some ''2024-01-01''\<rparr>"

text \<open>The database after \<open>inbound_X10\<close> has been created.\<close>

definition db_X10 :: db where
  "db_X10 =
     empty_db\<lparr>inventory := [''X'' \<mapsto> 10],
              inventoryLedger := [inbound_event ''2024-01-05'' inbound_X10]\<rparr>"

text \<open>
  Two sequences of requests that leave the same source records: a creation of each record, and
  a longer one with an update and a deletion on the way.
\<close>

definition history_A :: "request list" where
  "history_A =
     [PostInbound ''2024-01-05'' inbound_X10, PostOutbound ''2024-01-06'' outbound_X3]"

definition history_B :: "request list" where
  "history_B =
     [PostOutbound ''2024-01-02'' outbound_X3, PostInbound ''2024-01-03'' inbound_Y4,
      PostInbound ''2024-01-04'' inbound_zero, PutInbound ''2024-01-05'' 1 inbound_X10,
      DeleteInbound 2]"

text \<open>
  Inbound records of products named \<open>__proto__\<close> and \<open>constructor\<close>, and the creation of
  each.
\<close>

definition inbound_proto :: inbound_record where
  "inbound_proto =
     \<lparr>record_id = 1, product_model = Some ''__proto__'', quantity = Some 5, unit_price = Some 5,
      total_price = Some 25, inbound_date = Some ''2024-01-01''\<rparr>"

definition inbound_constructor :: inbound_record where
  "inbound_constructor =
     \<lparr>record_id = 1, product_model = Some ''constructor'', quantity = Some 5, unit_price = Some 5,
      total_price = Some 25, inbound_date = Some ''2024-01-01''\<rparr>"

definition history_proto :: "request list" where
  "history_proto = [PostInbound ''2024-01-05'' inbound_proto]"

definition history_constructor :: "request list" where
  "history_constructor = [PostInbound ''2024-01-05'' inbound_constructor]"

text \<open>A reading of strings that knows the string \<open>0\<close> only.\<close>

definition parse_zero :: "string \<Rightarrow> Decimal option" where
  "parse_zero s = (if s = ''0'' then Some (Finite 0) else None)"

text \<open>
  Data for the cost matcher: a partner, sales and purchases of product \<open>X\<close>, a state with two
  batches queued, and databases.  In \<open>two_batches\<close> the older batch is the later row and has
  the larger key.
\<close>

definition acme :: partner_record where
  "acme = \<lparr>code = Some ''C1'', short_name = Some ''Acme'', full_name = Some ''Acme Trading''\<rparr>"

definition sale :: "int \<Rightarrow> int \<Rightarrow> string \<Rightarrow> string \<Rightarrow> outbound_record" where
  "sale i q dt customer =
     \<lparr>record_id = i, product_model = Some ''X'', quantity = Some q, unit_price = Some 12,
      total_price = Some (12 * of_int q), outbound_date = Some dt,
      customer_code = Some customer, customer_short_name = None\<rparr>"

definition purchase :: "int \<Rightarrow> int \<Rightarrow> rat \<Rightarrow> string \<Rightarrow> inbound_record" where
  "purchase i q price dt =
     \<lparr>record_id = i, product_model = Some ''X'', quantity = Some q, unit_price = Some price,
      total_price = Some (price * of_int q), inbound_date = Some dt\<rparr>"

definition stock_X :: "string \<rightharpoonup> Batch list" where
  "stock_X =
     [''X'' \<mapsto> [\<lparr>quantity_remaining = 10, batch_unit_price = 5\<rparr>,
                \<lparr>quantity_remaining = 10, batch_unit_price = 8\<rparr>]]"

definition negative_price_db :: db where
  "negative_price_db =
     empty_db\<lparr>inboundRecord := [purchase 1 5 (- 2) ''2024-01-01''],
              outboundRecord := [sale 1 10 ''2024-03-15'' ''C1''],
              partner := [acme]\<rparr>"

definition two_sales_db :: db where
  "two_sales_db =
     empty_db\<lparr>inboundRecord := [purchase 1 10 5 ''2024-01-01'', purchase 2 10 8 ''2024-02-01''],
              outboundRecord := [sale 1 10 ''2024-02-15'' ''C1'', sale 2 5 ''2024-03-15'' ''C1'',
                                 sale 3 5 ''2024-04-02'' ''C1''],
              partner := [acme]\<rparr>"

definition two_batches :: "string \<Rightarrow> string \<Rightarrow> string \<Rightarrow> db" where
  "two_batches D1 D2 D3 =
     empty_db\<lparr>
       inboundRecord :=
         [\<lparr>record_id = 1, product_model = Some ''X'', quantity = Some 10, unit_price = Some 8,
           total_price = Some 80, inbound_date = Some D2\<rparr>,
          \<lparr>record_id = 2, product_model = Some ''X'', quantity = Some 10, unit_price = Some 5,
           total_price = Some 50, inbound_date = Some D1\<rparr>],
       outboundRecord :=
         [\<lparr>record_id = 1, product_model = Some ''X'', quantity = Some 15, unit_price = Some 12,
           total_price = Some 180, outbound_date = Some D3, customer_code = Some ''C1'',
           customer_short_name = None\<rparr>],
       partner :=
         [\<lparr>code = Some ''C1'', short_name = Some ''Acme'', full_name = Some ''Acme Trading''\<rparr>]\<rparr>"

definition unknown_customer_db :: db where
  "unknown_customer_db =
     empty_db\<lparr>inboundRecord := [purchase 1 10 5 ''2024-01-01'', purchase 2 10 8 ''2024-02-01''],
              outboundRecord := [sale 1 10 ''2024-03-10'' ''ZZ'', sale 2 5 ''2024-03-15'' ''C1''],
              partner := [acme]\<rparr>"

text \<open>
  The databases \<open>two_sales_db\<close> and \<open>unknown_customer_db\<close> with the first sale, the one dated
  before the period and the one to the unknown customer, made of a product named
  \<open>constructor\<close>.
\<close>

definition sale_of :: "string \<Rightarrow> int \<Rightarrow> int \<Rightarrow> string \<Rightarrow> string \<Rightarrow> outbound_record" where
  "sale_of model i q dt customer = (sale i q dt customer)\<lparr>product_model := Some model\<rparr>"

definition early_constructor_db :: db where
  "early_constructor_db =
     empty_db\<lparr>inboundRecord := [purchase 1 10 5 ''2024-01-01'', purchase 2 10 8 ''2024-02-01''],
              outboundRecord := [sale_of ''constructor'' 1 10 ''2024-02-15'' ''C1'',
                                 sale 2 5 ''2024-03-15'' ''C1''],
              partner := [acme]\<rparr>"

definition unknown_constructor_db :: db where
  "unknown_constructor_db =
     empty_db\<lparr>inboundRecord := [purchase 1 10 5 ''2024-01-01'', purchase 2 10 8 ''2024-02-01''],
              outboundRecord := [sale_of ''constructor'' 1 10 ''2024-03-10'' ''ZZ'',
                                 sale 2 5 ''2024-03-15'' ''C1''],
              partner := [acme]\<rparr>"

section \<open>The projection invariant\<close>

lemma projection_invariant_iff:
  "projection_invariant d \<longleftrightarrow>
     (\<forall>p. projection_quantity d p = ledger_sum d p \<and>
          (inventory d p = None \<longrightarrow>
             filter (\<lambda>e. ledger_product_model e = p) (inventoryLedger d) = []))"
  unfolding projection_invariant_def projection_quantity_def ledger_sum_def
  by (auto split: option.splits)

lemma quantity_upsert:
  "projection_quantity (inventory_upsert pm (\<lambda>q. q + c) c d) p =
     projection_quantity d p + (if p = pm then c else 0)"
  by (simp add: projection_quantity_def inventory_upsert_def split: option.splits)

lemma row_upsert:
  "inventory (inventory_upsert pm u c d) p = None \<longleftrightarrow> inventory d p = None \<and> p \<noteq> pm"
  by (simp add: inventory_upsert_def)

lemma ledger_upsert [simp]:
  "inventoryLedger (inventory_upsert pm u c d) = inventoryLedger d"
  by (simp add: inventory_upsert_def)

lemma append_preserves:
  assumes "projection_invariant d"
  shows "projection_invariant
           (inventory_upsert (ledger_product_model e) (\<lambda>q. q + change_qty e) (change_qty e)
              (ledger_create e d))"
  using assms unfolding projection_invariant_iff
  by (auto simp: ledger_sum_def ledger_create_def projection_quantity_def inventory_upsert_def
        split: option.splits)

lemma quantity_revert_entry:
  "projection_quantity (revert_entry e d) p =
     projection_quantity d p - (if ledger_product_model e = p then change_qty e else 0)"
  by (simp add: projection_quantity_def revert_entry_def inventory_upsert_def
        split: option.splits)

lemma ledger_revert_entry [simp]: "inventoryLedger (revert_entry e d) = inventoryLedger d"
  by (simp add: revert_entry_def)

lemma fold_revert_ledger [simp]: "inventoryLedger (fold revert_entry es d) = inventoryLedger d"
  by (induction es arbitrary: d) auto

lemma fold_revert_quantity:
  "projection_quantity (fold revert_entry es d) p =
     projection_quantity d p
       - sum_list (map change_qty (filter (\<lambda>e. ledger_product_model e = p) es))"
  by (induction es arbitrary: d) (auto simp: quantity_revert_entry)

lemma fold_revert_row:
  "inventory (fold revert_entry es d) p = None \<Longrightarrow> inventory d p = None"
proof (induction es arbitrary: d)
  case Nil
  then show ?case by simp
next
  case (Cons e es)
  then have "inventory (revert_entry e d) p = None" by simp
  then show ?case by (simp add: revert_entry_def row_upsert)
qed

lemma sum_list_split:
  "sum_list (map f (filter P xs)) =
     sum_list (map f (filter (\<lambda>x. P x \<and> Q x) xs))
       + sum_list (map f (filter (\<lambda>x. P x \<and> \<not> Q x) xs))"
  for f :: "'a \<Rightarrow> int"
  by (induction xs) auto

lemma quantity_revert:
  "projection_quantity (snd (revert i k d)) p =
     projection_quantity d p
       - sum_list (map change_qty
           (filter (\<lambda>e. ledger_product_model e = p \<and> matches i k e) (inventoryLedger d)))"
  by (simp add: revert_def Let_def projection_quantity_def conj_commute
        fold_revert_quantity [unfolded projection_quantity_def])

lemma ledger_revert:
  "inventoryLedger (snd (revert i k d)) = filter (\<lambda>e. \<not> matches i k e) (inventoryLedger d)"
  by (simp add: revert_def Let_def)

lemma revert_preserves:
  assumes "projection_invariant d"
  shows "projection_invariant (snd (revert i k d))"
proof -
  have q: "projection_quantity (snd (revert i k d)) p = ledger_sum (snd (revert i k d)) p" for p
    using assms
      sum_list_split [of change_qty "\<lambda>e. ledger_product_model e = p" "inventoryLedger d"
        "matches i k"]
    by (simp add: quantity_revert ledger_revert ledger_sum_def projection_invariant_iff
          conj_commute)
  have r: "filter (\<lambda>e. ledger_product_model e = p) (inventoryLedger (snd (revert i k d))) = []"
    if "inventory (snd (revert i k d)) p = None" for p
  proof -
    from that have "inventory d p = None"
      by (auto simp: revert_def Let_def dest: fold_revert_row)
    with assms have "filter (\<lambda>e. ledger_product_model e = p) (inventoryLedger d) = []"
      by (simp add: projection_invariant_iff)
    then show ?thesis
      by (auto simp: ledger_revert filter_empty_conv)
  qed
  show ?thesis
    unfolding projection_invariant_iff using q r by blast
qed

lemma transaction_preserves:
  assumes "\<And>d. P d \<Longrightarrow> P (snd (body d))" and "P d"
  shows "P (snd (transaction fails body d))"
  using assms by (simp add: transaction_def split: prod.splits) (metis snd_conv)

lemma onInboundCreate_preserves:
  "projection_invariant d \<Longrightarrow> projection_invariant (snd (onInboundCreate now f r d))"
  unfolding onInboundCreate_def
  using append_preserves [where e = "inbound_event now r"]
  by (auto intro!: transaction_preserves [where P = projection_invariant]
        simp: inbound_event_def)

lemma onOutboundCreate_preserves:
  "projection_invariant d \<Longrightarrow> projection_invariant (snd (onOutboundCreate now f r d))"
  unfolding onOutboundCreate_def
  using append_preserves [where e = "outbound_event now r"]
  by (auto intro!: transaction_preserves [where P = projection_invariant]
        simp: outbound_event_def Let_def)

lemma onInboundDelete_preserves:
  "projection_invariant d \<Longrightarrow> projection_invariant (snd (onInboundDelete f i d))"
  unfolding onInboundDelete_def
  by (rule transaction_preserves [where P = projection_invariant]) (auto intro: revert_preserves)

lemma onOutboundDelete_preserves:
  "projection_invariant d \<Longrightarrow> projection_invariant (snd (onOutboundDelete f i d))"
  unfolding onOutboundDelete_def
  by (rule transaction_preserves [where P = projection_invariant]) (auto intro: revert_preserves)

lemma onInboundUpdate_preserves:
  "projection_invariant d \<Longrightarrow> projection_invariant (snd (onInboundUpdate now f1 f2 r r' d))"
  using onInboundDelete_preserves [of d f1 "record_id r"]
    onInboundCreate_preserves [of "snd (onInboundDelete f1 (record_id r) d)" now f2 r']
  by (auto simp: onInboundUpdate_def split: prod.splits sum.splits)

lemma onOutboundUpdate_preserves:
  "projection_invariant d \<Longrightarrow> projection_invariant (snd (onOutboundUpdate now f1 f2 r r' d))"
  using onOutboundDelete_preserves [of d f1 "record_id r"]
    onOutboundCreate_preserves [of "snd (onOutboundDelete f1 (record_id r) d)" now f2 r']
  by (auto simp: onOutboundUpdate_def split: prod.splits sum.splits)

lemma mutate_preserves:
  "projection_invariant d \<Longrightarrow> projection_invariant (snd (mutate m d))"
  by (cases m)
     (simp_all add: onInboundCreate_preserves onOutboundCreate_preserves
        onInboundDelete_preserves onOutboundDelete_preserves onInboundUpdate_preserves
        onOutboundUpdate_preserves)

lemma empty_db_invariant: "projection_invariant empty_db"
  by (simp add: projection_invariant_def empty_db_def)

text \<open>
  C1.  Whatever calls of the inventory service are made (creations, deletions and updates of
  inbound and outbound records, whichever of their transactions fail), a database in which
  every product's projection quantity is the sum of \<open>change_qty\<close> over its ledger rows stays
  such a database: after the calls the invariant holds, and the quantity read for any product
  is the sum over its ledger rows.
\<close>

theorem projection_invariant_mutations:
  assumes "projection_invariant d"
  shows "projection_invariant (mutations ms d) \<and>
         projection_quantity (mutations ms d) p = ledger_sum (mutations ms d) p"
proof -
  have "projection_invariant (mutations ms d)"
    using assms unfolding mutations_def
    by (induction ms arbitrary: d) (simp_all add: mutate_preserves)
  then show ?thesis by (simp add: projection_invariant_iff)
qed

text \<open>
  A creation, a sale and an update whose second transaction fails: the update has taken the
  ten units of \<open>X\<close> off and put nothing back, and the projection still agrees with the ledger.
\<close>

theorem projection_invariant_mutations_witness:
  "projection_invariant empty_db \<and>
   projection_invariant
     (mutations
        [InboundCreate ''2024-01-05'' False inbound_X10,
         OutboundCreate ''2024-01-05'' False outbound_X3,
         InboundUpdate ''2024-01-06'' False True inbound_X10 inbound_Y4]
        empty_db) \<and>
   projection_quantity
     (mutations
        [InboundCreate ''2024-01-05'' False inbound_X10,
         OutboundCreate ''2024-01-05'' False outbound_X3,
         InboundUpdate ''2024-01-06'' False True inbound_X10 inbound_Y4]
        empty_db) ''X''
     = ledger_sum
         (mutations
            [InboundCreate ''2024-01-05'' False inbound_X10,
             OutboundCreate ''2024-01-05'' False outbound_X3,
             InboundUpdate ''2024-01-06'' False True inbound_X10 inbound_Y4]
            empty_db) ''X''"
  using projection_invariant_mutations [OF empty_db_invariant] by (simp add: empty_db_invariant)

lemma mutations_example:
  "inventory
     (mutations
        [InboundCreate ''2024-01-05'' False inbound_X10,
         OutboundCreate ''2024-01-05'' False outbound_X3,
         InboundUpdate ''2024-01-06'' False True inbound_X10 inbound_Y4]
        empty_db) ''X'' = Some (- 3)"
  "map change_qty
     (inventoryLedger
        (mutations
           [InboundCreate ''2024-01-05'' False inbound_X10,
            OutboundCreate ''2024-01-05'' False outbound_X3,
            InboundUpdate ''2024-01-06'' False True inbound_X10 inbound_Y4]
           empty_db)) = [- 3]"
  by (simp_all add: mutations_def onInboundCreate_def onOutboundCreate_def onInboundUpdate_def
        onInboundDelete_def transaction_def skipped_def falsy_string_def falsy_number_def
        inventory_upsert_def ledger_create_def inbound_event_def outbound_event_def revert_def
        revert_entry_def matches_def empty_db_def or_else_def inbound_X10_def inbound_Y4_def
        outbound_X3_def)

section \<open>Records that do not take part in stock\<close>

lemmas service_defs =
  onInboundCreate_def onOutboundCreate_def onInboundDelete_def onOutboundDelete_def
  onInboundUpdate_def onOutboundUpdate_def transaction_def skipped_def falsy_string_def
  falsy_number_def inventory_upsert_def ledger_create_def inbound_event_def outbound_event_def
  revert_def revert_entry_def matches_def or_else_def

text \<open>
  C7, as the code has it.  A creation whose record has no product model (null or the empty
  string) or no quantity (null or zero) opens no transaction: it returns without an error and
  leaves the ledger and the projection as they were.  A negative quantity is not zero, and such
  a record is entered like any other; see the counterexample below.
\<close>

theorem create_skipped_noop:
  "(skipped r \<longrightarrow> onInboundCreate now fails r d = (Inr (), d)) \<and>
   (skipped r' \<longrightarrow> onOutboundCreate now fails r' d = (Inr (), d))"
  by (simp add: onInboundCreate_def onOutboundCreate_def)

theorem create_skipped_noop_witness:
  "skipped inbound_zero \<and> skipped (outbound_X3\<lparr>product_model := Some ''''\<rparr>) \<and>
   onInboundCreate ''2024-01-05'' True inbound_zero db_X10 = (Inr (), db_X10) \<and>
   onOutboundCreate ''2024-01-05'' True (outbound_X3\<lparr>product_model := Some ''''\<rparr>) db_X10
     = (Inr (), db_X10)"
proof -
  have a: "skipped inbound_zero"
    by (simp add: skipped_def inbound_zero_def falsy_string_def falsy_number_def)
  have b: "skipped (outbound_X3\<lparr>product_model := Some ''''\<rparr>)"
    by (simp add: skipped_def outbound_X3_def falsy_string_def falsy_number_def)
  show ?thesis
    using a b
      create_skipped_noop [of inbound_zero "''2024-01-05''" True db_X10
        "outbound_X3\<lparr>product_model := Some ''''\<rparr>"]
    by simp
qed

text \<open>
  An inbound record of quantity \<open>-5\<close>, which is not positive, is not skipped: its creation
  writes a ledger row and a projection row.
\<close>

theorem create_negative_quantity_counterexample:
  "the (quantity inbound_negative) \<le> 0 \<and>
   fst (onInboundCreate ''2024-01-05'' False inbound_negative empty_db) = Inr () \<and>
   inventoryLedger (snd (onInboundCreate ''2024-01-05'' False inbound_negative empty_db)) =
     [\<lparr>ledger_product_model = ''X'', change_qty = - 5, change_type = INBOUND,
       reference_id = 7, ledger_date = ''2024-01-01''\<rparr>] \<and>
   inventoryLedger empty_db = [] \<and>
   inventory (snd (onInboundCreate ''2024-01-05'' False inbound_negative empty_db)) ''X''
     = Some (- 5) \<and>
   inventory empty_db ''X'' = None"
  by (simp add: service_defs inbound_negative_def empty_db_def)

section \<open>Reverting an unknown reference\<close>

lemma revert_unknown:
  assumes "filter (matches i k) (inventoryLedger d) = []"
  shows "revert i k d = ((), d)"
proof -
  from assms have "filter (\<lambda>e. \<not> matches i k e) (inventoryLedger d) = inventoryLedger d"
    by (simp add: filter_empty_conv filter_id_conv)
  with assms show ?thesis by (simp add: revert_def)
qed

text \<open>
  C8.  When no ledger row has the reference and the kind, the deletion returns without an
  error and the database it leaves is the one it found: every ledger row and every projection
  row is unchanged.  (Should the transaction fail for a reason of the database's, it is left
  unchanged as well.)
\<close>

theorem revert_unknown_reference_noop:
  "(filter (matches i INBOUND) (inventoryLedger d) = [] \<longrightarrow>
      onInboundDelete False i d = (Inr (), d) \<and> snd (onInboundDelete True i d) = d) \<and>
   (filter (matches i OUTBOUND) (inventoryLedger d) = [] \<longrightarrow>
      onOutboundDelete False i d = (Inr (), d) \<and> snd (onOutboundDelete True i d) = d)"
  by (simp add: onInboundDelete_def onOutboundDelete_def transaction_def revert_unknown)

theorem revert_unknown_reference_noop_witness:
  "filter (matches 2 INBOUND) (inventoryLedger db_X10) = [] \<and>
   filter (matches 1 OUTBOUND) (inventoryLedger db_X10) = [] \<and>
   onInboundDelete False 2 db_X10 = (Inr (), db_X10) \<and>
   onOutboundDelete False 1 db_X10 = (Inr (), db_X10)"
proof -
  have a: "filter (matches 2 INBOUND) (inventoryLedger db_X10) = []"
    by (simp add: db_X10_def matches_def inbound_event_def inbound_X10_def)
  have b: "filter (matches 1 OUTBOUND) (inventoryLedger db_X10) = []"
    by (simp add: db_X10_def matches_def inbound_event_def inbound_X10_def)
  show ?thesis
    using a b revert_unknown_reference_noop [of 2 db_X10]
      revert_unknown_reference_noop [of 1 db_X10]
    by simp
qed

section \<open>Updates\<close>

text \<open>
  C3, as the code has it.  An update is two transactions, one after the other.  When the
  deletion fails, the update fails and the database is unchanged.  When the deletion commits
  and the creation of the new record fails, the update fails and the database is left as the
  deletion alone leaves it: the old record's ledger rows and stock are gone and nothing stands
  in for them.
\<close>

theorem update_two_transactions:
  "onInboundUpdate now True f2 r r' d = (Inl TransactionFailure, d) \<and>
   onOutboundUpdate now True f2 o1 o2 d = (Inl TransactionFailure, d) \<and>
   (\<not> skipped r' \<longrightarrow>
      onInboundUpdate now False True r r' d
        = (Inl TransactionFailure, snd (onInboundDelete False (record_id r) d))) \<and>
   (\<not> skipped o2 \<longrightarrow>
      onOutboundUpdate now False True o1 o2 d
        = (Inl TransactionFailure, snd (onOutboundDelete False (record_id o1) d)))"
  by (simp add: onInboundUpdate_def onOutboundUpdate_def onInboundDelete_def
        onOutboundDelete_def onInboundCreate_def onOutboundCreate_def transaction_def
        split: prod.splits)

theorem update_two_transactions_witness:
  "\<not> skipped inbound_Y4 \<and>
   onInboundUpdate ''2024-01-06'' False True inbound_X10 inbound_Y4 db_X10
     = (Inl TransactionFailure, snd (onInboundDelete False 1 db_X10))"
proof -
  have a: "\<not> skipped inbound_Y4"
    by (simp add: skipped_def inbound_Y4_def falsy_string_def falsy_number_def)
  have b: "record_id inbound_X10 = 1" by (simp add: inbound_X10_def)
  show ?thesis
    using a b update_two_transactions [of "''2024-01-06''" True inbound_X10 inbound_Y4 db_X10]
    by simp
qed

text \<open>
  The update of \<open>inbound_X10\<close> whose second step fails: the error is thrown, and the ten
  units of \<open>X\<close> and their ledger row, there before the update, are not there after it.
\<close>

theorem update_not_atomic_counterexample:
  "fst (onInboundUpdate ''2024-01-06'' False True inbound_X10 inbound_Y4 db_X10)
     = Inl TransactionFailure \<and>
   inventory db_X10 ''X'' = Some 10 \<and>
   inventory (snd (onInboundUpdate ''2024-01-06'' False True inbound_X10 inbound_Y4 db_X10)) ''X''
     = Some 0 \<and>
   inventoryLedger db_X10 \<noteq> [] \<and>
   inventoryLedger (snd (onInboundUpdate ''2024-01-06'' False True inbound_X10 inbound_Y4 db_X10))
     = []"
  by (simp add: service_defs db_X10_def inbound_X10_def inbound_Y4_def empty_db_def)

section \<open>The full recalculation against incremental maintenance\<close>

lemma inherited_proto: "inherited ''__proto__'' \<noteq> None"
  by (simp add: inherited_def object_prototype_def)

lemma map_of_add_total:
  assumes "inherited (ledger_product_model e) = None"
  shows "map_of (add_total e ts) p =
     (if p = ledger_product_model e
      then Some (case map_of ts p of
                   None \<Rightarrow> Quantity (change_qty e)
                 | Some (Quantity q) \<Rightarrow> Quantity (q + change_qty e)
                 | Some Text \<Rightarrow> Text)
      else map_of ts p)"
  using assms by (simp add: add_total_def update_conv' split: option.splits total.splits)

lemma add_total_Nil: "inherited (ledger_product_model e) = None \<Longrightarrow> add_total e ts \<noteq> []"
  by (cases ts) (auto simp: add_total_def Let_def split: option.splits total.splits)

lemma map_of_value: "map_of ts k = Some v \<Longrightarrow> v \<in> snd ` set ts"
  by (induction ts) (auto split: if_splits)

lemma set_update: "set (AList.update k v al) \<subseteq> insert (k, v) (set al)"
  by (induction al) auto

lemma add_total_numbers:
  assumes "inherited (ledger_product_model e) = None" and "Text \<notin> snd ` set ts"
  shows "Text \<notin> snd ` set (add_total e ts)"
proof
  assume "Text \<in> snd ` set (add_total e ts)"
  then obtain k where k: "(k, Text) \<in> set (add_total e ts)" by auto
  from assms(2) have n: "map_of ts (ledger_product_model e) \<noteq> Some Text"
    by (auto dest: map_of_value)
  then have "\<exists>q. add_total e ts = AList.update (ledger_product_model e) (Quantity q) ts"
    using assms(1) by (auto simp: add_total_def Let_def split: option.splits total.splits)
  then obtain q where "add_total e ts = AList.update (ledger_product_model e) (Quantity q) ts" ..
  with k set_update [of "ledger_product_model e" "Quantity q" ts]
  have "(k, Text) \<in> set ts" by auto
  then have "snd (k, Text) \<in> snd ` set ts" by (rule imageI)
  with assms(2) show False by simp
qed

lemma fold_add_total_numbers:
  assumes "list_all (\<lambda>e. inherited (ledger_product_model e) = None) es"
    and "Text \<notin> snd ` set ts"
  shows "Text \<notin> snd ` set (fold add_total es ts)"
  using assms
proof (induction es arbitrary: ts)
  case Nil
  then show ?case by simp
next
  case (Cons e es)
  from Cons.prems have "Text \<notin> snd ` set (add_total e ts)"
    by (intro add_total_numbers) simp_all
  with Cons.prems show ?case by (simp add: Cons.IH)
qed

lemma map_of_fold_add_total:
  assumes "list_all (\<lambda>e. inherited (ledger_product_model e) = None) es"
    and "Text \<notin> snd ` set ts"
  shows "map_of (fold add_total es ts) p =
     (if filter (\<lambda>e. ledger_product_model e = p) es \<noteq> [] \<or> map_of ts p \<noteq> None
      then Some (Quantity ((case map_of ts p of None \<Rightarrow> 0 | Some v \<Rightarrow> quantity_of v)
                 + sum_list (map change_qty (filter (\<lambda>e. ledger_product_model e = p) es))))
      else None)"
  using assms
proof (induction es arbitrary: ts)
  case Nil
  have "v = Quantity (quantity_of v)" if "map_of ts p = Some v" for v
  proof -
    from that have "v \<in> snd ` set ts" by (rule map_of_value)
    with Nil.prems(2) have "v \<noteq> Text" by metis
    then show ?thesis by (cases v) (simp_all add: quantity_of_def)
  qed
  then show ?case by (auto split: option.splits)
next
  case (Cons e es)
  from Cons.prems have e: "inherited (ledger_product_model e) = None"
    and es: "list_all (\<lambda>e. inherited (ledger_product_model e) = None) es"
    by simp_all
  from e Cons.prems(2) have n: "Text \<notin> snd ` set (add_total e ts)"
    by (rule add_total_numbers)
  have t: "map_of ts k \<noteq> Some Text" for k
    using Cons.prems(2) by (auto dest: map_of_value)
  show ?case
    using t [of p]
    by (auto simp: Cons.IH [OF es n] map_of_add_total [OF e] quantity_of_def
          split: option.splits total.splits)
qed

lemma fold_add_total_Nil:
  assumes "list_all (\<lambda>e. inherited (ledger_product_model e) = None) es"
  shows "fold add_total es ts = [] \<longleftrightarrow> es = [] \<and> ts = []"
  using assms
proof (induction es arbitrary: ts)
  case Nil
  then show ?case by simp
next
  case (Cons e es)
  then show ?case by (simp add: add_total_Nil)
qed

lemma quantity_of_Quantity [simp]: "quantity_of (Quantity q) = q"
  by (simp add: quantity_of_def)

lemma map_of_quantities:
  "map_of (map (map_prod id quantity_of) ts) p = map_option quantity_of (map_of ts p)"
  by (induction ts) auto

text \<open>
  The recalculation reads the two source tables only: it gives the same result from any
  inventory and ledger.
\<close>

lemma rebuild_source_only:
  "rebuild collate now (d\<lparr>inventory := i, inventoryLedger := l\<rparr>) = rebuild collate now d"
  by (simp add: rebuild_def)

lemma regular_events:
  assumes "regular_tables d"
  shows "list_all (\<lambda>e. inherited (ledger_product_model e) = None)
           (sort_key (\<lambda>e. collate (ledger_date e))
              (map (inbound_event now)
                 (filter (\<lambda>r. \<not> skipped r) (sort_key inbound_date (inboundRecord d)))
               @ map (outbound_event now)
                 (filter (\<lambda>r. \<not> skipped r) (sort_key outbound_date (outboundRecord d)))))"
  using assms
  by (auto simp: regular_tables_def regular_def list_all_iff inbound_event_def
        outbound_event_def)

lemma rebuild_result:
  assumes "regular_tables d"
  obtains es r d' where
    "mset es = mset (map (inbound_event now) (filter (\<lambda>r. \<not> skipped r) (inboundRecord d)))
             + mset (map (outbound_event now) (filter (\<lambda>r. \<not> skipped r) (outboundRecord d)))"
    and "rebuild collate now d = Inr (r, d')"
    and "inventoryLedger d' = es"
    and "\<forall>p. inventory d' p =
           (if filter (\<lambda>e. ledger_product_model e = p) es \<noteq> []
            then Some (sum_list (map change_qty (filter (\<lambda>e. ledger_product_model e = p) es)))
            else None)"
proof -
  define es where "es = sort_key (\<lambda>e. collate (ledger_date e))
      (map (inbound_event now)
         (filter (\<lambda>r. \<not> skipped r) (sort_key inbound_date (inboundRecord d)))
       @ map (outbound_event now)
         (filter (\<lambda>r. \<not> skipped r) (sort_key outbound_date (outboundRecord d))))"
  have reg: "list_all (\<lambda>e. inherited (ledger_product_model e) = None) es"
    unfolding es_def using assms by (rule regular_events)
  have num: "Text \<notin> snd ` set (fold add_total es [])"
    using reg by (rule fold_add_total_numbers) simp
  define d' where "d' = d\<lparr>inventory := map_of (map (map_prod id quantity_of) (fold add_total es [])),
                           inventoryLedger := es\<rparr>"
  have 1: "mset es = mset (map (inbound_event now) (filter (\<lambda>r. \<not> skipped r) (inboundRecord d)))
             + mset (map (outbound_event now) (filter (\<lambda>r. \<not> skipped r) (outboundRecord d)))"
    by (simp add: es_def)
  have 2: "rebuild collate now d = Inr ((length es, length (fold add_total es [])), d')"
    using num
    by (cases "es = []")
       (simp_all add: rebuild_def Let_def es_def [symmetric] d'_def
          fold_add_total_Nil [OF reg])
  have 3: "inventoryLedger d' = es"
    by (simp add: d'_def)
  have 4: "inventory d' p =
           (if filter (\<lambda>e. ledger_product_model e = p) es \<noteq> []
            then Some (sum_list (map change_qty (filter (\<lambda>e. ledger_product_model e = p) es)))
            else None)" for p
    using map_of_fold_add_total [OF reg, of "[]" p]
    by (simp add: d'_def map_of_quantities)
  from 4 have "\<forall>p. inventory d' p =
           (if filter (\<lambda>e. ledger_product_model e = p) es \<noteq> []
            then Some (sum_list (map change_qty (filter (\<lambda>e. ledger_product_model e = p) es)))
            else None)" ..
  with 1 2 3 show ?thesis by (rule that)
qed

lemma undated_inbound_event:
  "undated (inbound_event now r) = (the (product_model r), the (quantity r), INBOUND, record_id r)"
  by (simp add: undated_def inbound_event_def)

lemma undated_outbound_event:
  "undated (outbound_event now r) = (the (product_model r), - the (quantity r), OUTBOUND, record_id r)"
  by (simp add: undated_def outbound_event_def)

lemma ledger_sum_undated:
  "ledger_sum d p = sum_mset (image_mset (qty_for p) (image_mset undated (mset (inventoryLedger d))))"
proof -
  have "sum_list (map change_qty (filter (\<lambda>e. ledger_product_model e = p) es))
      = sum_list (map (\<lambda>e. qty_for p (undated e)) es)" for es
    by (induction es) (auto simp: qty_for_def undated_def)
  then show ?thesis
    by (simp add: ledger_sum_def multiset.map_comp comp_def sum_mset_sum_list [symmetric])
qed

lemma same_entries_same_sum:
  assumes "image_mset undated (mset (inventoryLedger d)) = image_mset undated (mset (inventoryLedger d'))"
  shows "ledger_sum d p = ledger_sum d' p"
  by (simp add: ledger_sum_undated assms)

text \<open>
  The recalculation of a database whose source records are regular succeeds, and leaves the
  ledger rows of the source records with the projection invariant.
\<close>

lemma rebuild_regular:
  assumes "regular_tables d"
  obtains r d' where "rebuild collate now d = Inr (r, d')"
    and "projection_invariant d'"
    and "image_mset undated (mset (inventoryLedger d')) = source_entries d"
proof -
  obtain es r d' where
    1: "mset es = mset (map (inbound_event now) (filter (\<lambda>r. \<not> skipped r) (inboundRecord d)))
             + mset (map (outbound_event now) (filter (\<lambda>r. \<not> skipped r) (outboundRecord d)))"
    and 2: "rebuild collate now d = Inr (r, d')"
    and 3: "inventoryLedger d' = es"
    and 4: "\<forall>p. inventory d' p =
           (if filter (\<lambda>e. ledger_product_model e = p) es \<noteq> []
            then Some (sum_list (map change_qty (filter (\<lambda>e. ledger_product_model e = p) es)))
            else None)"
    by (rule rebuild_result [where now = now and collate = collate, OF assms])
  from 3 4 have "projection_invariant d'"
    by (simp add: projection_invariant_def ledger_sum_def)
  moreover from 1 3 have "image_mset undated (mset (inventoryLedger d')) = source_entries d"
    by (simp add: source_entries_def multiset.map_comp comp_def undated_inbound_event
          undated_outbound_event)
  ultimately show ?thesis using 2 that by blast
qed

text \<open>
  From a database that incremental maintenance has kept, with any inventory and ledger put in
  place of its own, the recalculation gives every product the quantity it had.
\<close>

lemma maintained_rebuild_quantity:
  assumes "maintained d" and "regular_tables d"
  obtains r d' where
    "recalculateAll collate now False (d\<lparr>inventory := i, inventoryLedger := l\<rparr>) = (Inr r, d')"
    and "\<And>p. projection_quantity d' p = projection_quantity d p"
proof -
  obtain r d' where 1: "rebuild collate now d = Inr (r, d')"
    and 2: "projection_invariant d'"
    and 3: "image_mset undated (mset (inventoryLedger d')) = source_entries d"
    using assms(2) by (rule rebuild_regular)
  have "recalculateAll collate now False (d\<lparr>inventory := i, inventoryLedger := l\<rparr>) = (Inr r, d')"
    using 1 by (simp add: recalculateAll_def rebuild_source_only)
  moreover have "projection_quantity d' p = projection_quantity d p" for p
  proof -
    have "projection_quantity d' p = ledger_sum d' p"
      using 2 by (simp add: projection_invariant_iff)
    also have "\<dots> = ledger_sum d p"
      using assms(1) 3 by (intro same_entries_same_sum) (simp add: maintained_def)
    also have "\<dots> = projection_quantity d p"
      using assms(1) by (simp add: maintained_def projection_invariant_iff)
    finally show ?thesis .
  qed
  ultimately show ?thesis by (rule that)
qed

lemma projection_invariant_tables [simp]:
  "projection_invariant (d\<lparr>inboundRecord := x\<rparr>) = projection_invariant d"
  "projection_invariant (d\<lparr>outboundRecord := y\<rparr>) = projection_invariant d"
  by (simp_all add: projection_invariant_def ledger_sum_def cong: option.case_cong)

lemma revert_tables [simp]:
  "inboundRecord (fold revert_entry es d) = inboundRecord d"
  "outboundRecord (fold revert_entry es d) = outboundRecord d"
  by (induction es arbitrary: d) (simp_all add: revert_entry_def inventory_upsert_def)

lemma create_tables [simp]:
  "inboundRecord (snd (onInboundCreate now f r d)) = inboundRecord d"
  "outboundRecord (snd (onInboundCreate now f r d)) = outboundRecord d"
  "inboundRecord (snd (onOutboundCreate now f r' d)) = inboundRecord d"
  "outboundRecord (snd (onOutboundCreate now f r' d)) = outboundRecord d"
  by (simp_all add: onInboundCreate_def onOutboundCreate_def transaction_def
        inventory_upsert_def ledger_create_def Let_def)

lemma delete_tables [simp]:
  "inboundRecord (snd (onInboundDelete f i d)) = inboundRecord d"
  "outboundRecord (snd (onInboundDelete f i d)) = outboundRecord d"
  "inboundRecord (snd (onOutboundDelete f i d)) = inboundRecord d"
  "outboundRecord (snd (onOutboundDelete f i d)) = outboundRecord d"
  by (simp_all add: onInboundDelete_def onOutboundDelete_def transaction_def revert_def Let_def)

lemma create_ledger:
  "inventoryLedger (snd (onInboundCreate now False r d)) =
     inventoryLedger d @ (if skipped r then [] else [inbound_event now r])"
  "inventoryLedger (snd (onOutboundCreate now False r' d)) =
     inventoryLedger d @ (if skipped r' then [] else [outbound_event now r'])"
  by (simp_all add: onInboundCreate_def onOutboundCreate_def transaction_def ledger_create_def
        Let_def)

lemma delete_ledger:
  "inventoryLedger (snd (onInboundDelete False i d)) =
     filter (\<lambda>e. \<not> matches i INBOUND e) (inventoryLedger d)"
  "inventoryLedger (snd (onOutboundDelete False i d)) =
     filter (\<lambda>e. \<not> matches i OUTBOUND e) (inventoryLedger d)"
  by (simp_all add: onInboundDelete_def onOutboundDelete_def transaction_def ledger_revert
        case_prod_beta)

lemma update_succeeds:
  "onInboundUpdate now False False r r' d =
     onInboundCreate now False r' (snd (onInboundDelete False (record_id r) d))"
  "onOutboundUpdate now False False o1 o2 d =
     onOutboundCreate now False o2 (snd (onOutboundDelete False (record_id o1) d))"
  by (simp_all add: onInboundUpdate_def onOutboundUpdate_def onInboundDelete_def
        onOutboundDelete_def transaction_def split: prod.splits)

lemma fold_max_ge_init: "a \<le> fold max xs a" for a :: int
proof (induction xs arbitrary: a)
  case Nil
  show ?case by simp
next
  case (Cons y ys)
  have "max y a \<le> fold max ys (max y a)" by (rule Cons.IH)
  then show ?case by simp
qed

lemma fold_max_ge_elem: "x \<in> set xs \<Longrightarrow> x \<le> fold max xs a" for a :: int
proof (induction xs arbitrary: a)
  case Nil
  then show ?case by simp
next
  case (Cons y ys)
  show ?case
  proof (cases "x = y")
    case True
    with fold_max_ge_init [of "max y a" ys] show ?thesis by simp
  next
    case False
    with Cons show ?thesis by simp
  qed
qed

lemma next_id_fresh: "next_id rs \<notin> record_id ` set rs"
proof
  assume "next_id rs \<in> record_id ` set rs"
  then have "next_id rs \<in> set (map record_id rs)" by simp
  then have "next_id rs \<le> fold max (map record_id rs) 0" by (rule fold_max_ge_elem)
  then show False by (simp add: next_id_def)
qed

lemma find_record_Some:
  "find_record i rs = Some r \<Longrightarrow> r \<in> set rs \<and> record_id r = i"
  by (auto simp: find_record_def find_Some_iff)

lemma find_record_None:
  "find_record i rs = None \<longleftrightarrow> i \<notin> record_id ` set rs"
  by (auto simp: find_record_def find_None_iff)

lemma mset_replace:
  assumes "distinct (map record_id rs)" and "i \<in> record_id ` set rs"
  shows "mset (map (\<lambda>r. if record_id r = i then new else r) rs) =
           mset (filter (\<lambda>r. record_id r \<noteq> i) rs) + {#new#}"
  using assms
proof (induction rs)
  case Nil
  then show ?case by simp
next
  case (Cons r rs)
  show ?case
  proof (cases "record_id r = i")
    case True
    with Cons.prems have "i \<notin> record_id ` set rs" by auto
    then have "map (\<lambda>r. if record_id r = i then new else r) rs = rs"
      and "filter (\<lambda>r. record_id r \<noteq> i) rs = rs"
      by (induction rs) auto
    with True show ?thesis by simp
  next
    case False
    with Cons show ?thesis by auto
  qed
qed

lemma distinct_replace:
  assumes "distinct (map record_id rs)" and "record_id new = i"
  shows "distinct (map record_id (map (\<lambda>r. if record_id r = i then new else r) rs))"
proof -
  have "map record_id (map (\<lambda>r. if record_id r = i then new else r) rs) = map record_id rs"
    using assms(2) by (induction rs) auto
  with assms(1) show ?thesis by (simp only:)
qed

lemma distinct_filter_ids:
  "distinct (map record_id rs) \<Longrightarrow> distinct (map record_id (filter P rs))"
  by (simp add: distinct_map_filter)

lemma undated_filter:
  "image_mset undated (filter_mset (\<lambda>e. \<not> matches i k e) M) =
     filter_mset (kept i k) (image_mset undated M)"
  by (simp add: filter_mset_image_mset kept_def undated_def matches_def)

lemma kept_source_inbound:
  "filter_mset (kept i INBOUND) (source_entries d) =
     source_entries (d\<lparr>inboundRecord := filter (\<lambda>r. record_id r \<noteq> i) (inboundRecord d)\<rparr>)"
  by (simp add: source_entries_def filter_mset_image_mset kept_def filter_filter_mset
        conj_commute)

lemma kept_source_outbound:
  "filter_mset (kept i OUTBOUND) (source_entries d) =
     source_entries (d\<lparr>outboundRecord := filter (\<lambda>r. record_id r \<noteq> i) (outboundRecord d)\<rparr>)"
  by (simp add: source_entries_def filter_mset_image_mset kept_def filter_filter_mset
        conj_commute)

lemma source_entries_service [simp]:
  "source_entries (snd (onInboundCreate now f r d)) = source_entries d"
  "source_entries (snd (onOutboundCreate now f r' d)) = source_entries d"
  "source_entries (snd (onInboundDelete f i d)) = source_entries d"
  "source_entries (snd (onOutboundDelete f i d)) = source_entries d"
  by (simp_all add: source_entries_def)

lemma skipped_record_id [simp]: "skipped (r\<lparr>record_id := i\<rparr>) = skipped r"
  by (simp add: skipped_def)

lemma post_inbound_maintained:
  assumes "maintained d"
  shows "maintained (snd (post_inbound now False body d))"
proof -
  let ?result = "body\<lparr>record_id := next_id (inboundRecord d)\<rparr>"
  let ?d1 = "d\<lparr>inboundRecord := inboundRecord d @ [?result]\<rparr>"
  let ?d2 = "snd (onInboundCreate now False ?result ?d1)"
  have "projection_invariant ?d2"
    using assms by (intro onInboundCreate_preserves) (simp add: maintained_def)
  moreover have "image_mset undated (mset (inventoryLedger ?d2)) = source_entries ?d2"
    using assms
    by (simp add: create_ledger maintained_def source_entries_def undated_inbound_event)
  moreover have "distinct (map record_id (inboundRecord ?d2))"
    using assms next_id_fresh [of "inboundRecord d"] by (simp add: maintained_def)
  moreover have "distinct (map record_id (outboundRecord ?d2))"
    using assms by (simp add: maintained_def)
  ultimately show ?thesis
    by (simp add: maintained_def post_inbound_def Let_def)
qed

lemma post_outbound_maintained:
  assumes "maintained d"
  shows "maintained (snd (post_outbound now False body d))"
proof -
  let ?result = "body\<lparr>record_id := next_id (outboundRecord d)\<rparr>"
  let ?d1 = "d\<lparr>outboundRecord := outboundRecord d @ [?result]\<rparr>"
  let ?d2 = "snd (onOutboundCreate now False ?result ?d1)"
  have "projection_invariant ?d2"
    using assms by (intro onOutboundCreate_preserves) (simp add: maintained_def)
  moreover have "image_mset undated (mset (inventoryLedger ?d2)) = source_entries ?d2"
    using assms
    by (simp add: create_ledger maintained_def source_entries_def undated_outbound_event)
  moreover have "distinct (map record_id (outboundRecord ?d2))"
    using assms next_id_fresh [of "outboundRecord d"] by (simp add: maintained_def)
  moreover have "distinct (map record_id (inboundRecord ?d2))"
    using assms by (simp add: maintained_def)
  ultimately show ?thesis
    by (simp add: maintained_def post_outbound_def Let_def)
qed

lemma delete_inbound_maintained:
  assumes "maintained d"
  shows "maintained (snd (delete_inbound False i d))"
proof (cases "find_record i (inboundRecord d)")
  case None
  with assms show ?thesis by (simp add: delete_inbound_def)
next
  case (Some old)
  let ?d1 = "d\<lparr>inboundRecord := filter (\<lambda>r. record_id r \<noteq> i) (inboundRecord d)\<rparr>"
  let ?d2 = "snd (onInboundDelete False i ?d1)"
  have "projection_invariant ?d2"
    using assms by (intro onInboundDelete_preserves) (simp add: maintained_def)
  moreover have "image_mset undated (mset (inventoryLedger ?d2)) = source_entries ?d2"
    using assms
    by (simp add: delete_ledger undated_filter maintained_def kept_source_inbound)
  moreover have "distinct (map record_id (inboundRecord ?d2))"
    using assms by (simp add: maintained_def distinct_filter_ids)
  moreover have "distinct (map record_id (outboundRecord ?d2))"
    using assms by (simp add: maintained_def)
  ultimately show ?thesis
    using Some by (simp add: maintained_def delete_inbound_def)
qed

lemma delete_outbound_maintained:
  assumes "maintained d"
  shows "maintained (snd (delete_outbound False i d))"
proof (cases "find_record i (outboundRecord d)")
  case None
  with assms show ?thesis by (simp add: delete_outbound_def)
next
  case (Some old)
  let ?d1 = "d\<lparr>outboundRecord := filter (\<lambda>r. record_id r \<noteq> i) (outboundRecord d)\<rparr>"
  let ?d2 = "snd (onOutboundDelete False i ?d1)"
  have "projection_invariant ?d2"
    using assms by (intro onOutboundDelete_preserves) (simp add: maintained_def)
  moreover have "image_mset undated (mset (inventoryLedger ?d2)) = source_entries ?d2"
    using assms
    by (simp add: delete_ledger undated_filter maintained_def kept_source_outbound)
  moreover have "distinct (map record_id (outboundRecord ?d2))"
    using assms by (simp add: maintained_def distinct_filter_ids)
  moreover have "distinct (map record_id (inboundRecord ?d2))"
    using assms by (simp add: maintained_def)
  ultimately show ?thesis
    using Some by (simp add: maintained_def delete_outbound_def)
qed

lemma put_inbound_maintained:
  assumes "maintained d"
  shows "maintained (snd (put_inbound now False False i body d))"
proof (cases "find_record i (inboundRecord d)")
  case None
  with assms show ?thesis by (simp add: put_inbound_def)
next
  case (Some old)
  then have old: "record_id old = i" "i \<in> record_id ` set (inboundRecord d)"
    by (auto dest: find_record_Some)
  let ?result = "body\<lparr>record_id := i\<rparr>"
  let ?d1 = "d\<lparr>inboundRecord :=
                 map (\<lambda>r. if record_id r = i then ?result else r) (inboundRecord d)\<rparr>"
  let ?d2 = "snd (onInboundCreate now False ?result (snd (onInboundDelete False i ?d1)))"
  from assms have dist: "distinct (map record_id (inboundRecord d))"
    by (simp add: maintained_def)
  have "projection_invariant ?d2"
    using assms
    by (intro onInboundCreate_preserves onInboundDelete_preserves) (simp add: maintained_def)
  moreover have "image_mset undated (mset (inventoryLedger ?d2)) = source_entries ?d2"
  proof -
    have "source_entries ?d2 =
        filter_mset (kept i INBOUND) (source_entries d)
        + (if skipped body then {#}
           else {#(the (product_model body), the (quantity body), INBOUND, i)#})"
      by (simp add: kept_source_inbound)
         (simp add: source_entries_def mset_replace [OF dist old(2)]
            flip: mset_filter mset_map)
    moreover have "image_mset undated (mset (inventoryLedger ?d2)) =
        filter_mset (kept i INBOUND) (source_entries d)
        + (if skipped body then {#}
           else {#(the (product_model body), the (quantity body), INBOUND, i)#})"
      using assms
      by (simp add: create_ledger delete_ledger undated_filter maintained_def
            undated_inbound_event)
    ultimately show ?thesis by simp
  qed
  moreover have "distinct (map record_id (inboundRecord ?d2))"
    using distinct_replace [OF dist, of ?result i] by simp
  moreover have "distinct (map record_id (outboundRecord ?d2))"
    using assms by (simp add: maintained_def)
  ultimately show ?thesis
    using Some old by (simp add: maintained_def put_inbound_def Let_def update_succeeds)
qed

lemma put_outbound_maintained:
  assumes "maintained d"
  shows "maintained (snd (put_outbound now False False i body d))"
proof (cases "find_record i (outboundRecord d)")
  case None
  with assms show ?thesis by (simp add: put_outbound_def)
next
  case (Some old)
  then have old: "record_id old = i" "i \<in> record_id ` set (outboundRecord d)"
    by (auto dest: find_record_Some)
  let ?result = "body\<lparr>record_id := i\<rparr>"
  let ?d1 = "d\<lparr>outboundRecord :=
                 map (\<lambda>r. if record_id r = i then ?result else r) (outboundRecord d)\<rparr>"
  let ?d2 = "snd (onOutboundCreate now False ?result (snd (onOutboundDelete False i ?d1)))"
  from assms have dist: "distinct (map record_id (outboundRecord d))"
    by (simp add: maintained_def)
  have "projection_invariant ?d2"
    using assms
    by (intro onOutboundCreate_preserves onOutboundDelete_preserves) (simp add: maintained_def)
  moreover have "image_mset undated (mset (inventoryLedger ?d2)) = source_entries ?d2"
  proof -
    have "source_entries ?d2 =
        filter_mset (kept i OUTBOUND) (source_entries d)
        + (if skipped body then {#}
           else {#(the (product_model body), - the (quantity body), OUTBOUND, i)#})"
      by (simp add: kept_source_outbound)
         (simp add: source_entries_def mset_replace [OF dist old(2)]
            flip: mset_filter mset_map)
    moreover have "image_mset undated (mset (inventoryLedger ?d2)) =
        filter_mset (kept i OUTBOUND) (source_entries d)
        + (if skipped body then {#}
           else {#(the (product_model body), - the (quantity body), OUTBOUND, i)#})"
      using assms
      by (simp add: create_ledger delete_ledger undated_filter maintained_def
            undated_outbound_event)
    ultimately show ?thesis by simp
  qed
  moreover have "distinct (map record_id (outboundRecord ?d2))"
    using distinct_replace [OF dist, of ?result i] by simp
  moreover have "distinct (map record_id (inboundRecord ?d2))"
    using assms by (simp add: maintained_def)
  ultimately show ?thesis
    using Some old by (simp add: maintained_def put_outbound_def Let_def update_succeeds)
qed

lemma serve_maintained: "maintained d \<Longrightarrow> maintained (serve r d)"
  by (cases r)
     (simp_all add: post_inbound_maintained put_inbound_maintained delete_inbound_maintained
        post_outbound_maintained put_outbound_maintained delete_outbound_maintained)

lemma empty_db_maintained: "maintained empty_db"
  by (simp add: maintained_def empty_db_invariant) (simp add: empty_db_def source_entries_def)

lemma serve_all_maintained: "maintained d \<Longrightarrow> maintained (serve_all rs d)"
  unfolding serve_all_def by (induction rs arbitrary: d) (simp_all add: serve_maintained)

lemma sum_mset_filter_image:
  "sum_mset (image_mset f (filter_mset P M)) = sum_mset (image_mset (\<lambda>x. if P x then f x else 0) M)"
  for f :: "'a \<Rightarrow> int"
  by (induction M) auto

lemma table_sum:
  "(\<Sum>r\<in>#mset rs. if \<not> skipped r
        then qty_for p (the (product_model r), the (quantity r), k, record_id r) else 0)
      = (\<Sum>r\<in>#mset rs. contribution p (stock_data r))"
  "(\<Sum>r\<in>#mset rs. if \<not> skipped r
        then qty_for p (the (product_model r), - the (quantity r), k, record_id r) else 0)
      = - (\<Sum>r\<in>#mset rs. contribution p (stock_data r))"
  by (induction rs)
     (auto simp: qty_for_def contribution_def stock_data_def skipped_def)

lemma source_sum:
  "sum_mset (image_mset (qty_for p) (source_entries d)) =
     sum_mset (image_mset (contribution p) (image_mset stock_data (mset (inboundRecord d))))
     - sum_mset (image_mset (contribution p) (image_mset stock_data (mset (outboundRecord d))))"
  by (simp add: source_entries_def multiset.map_comp comp_def sum_mset_filter_image table_sum)

lemma maintained_quantity:
  assumes "maintained d"
  shows "projection_quantity d p =
     sum_mset (image_mset (contribution p) (image_mset stock_data (mset (inboundRecord d))))
     - sum_mset (image_mset (contribution p) (image_mset stock_data (mset (outboundRecord d))))"
  using assms
  by (simp add: maintained_def projection_invariant_iff ledger_sum_undated source_sum)

lemmas route_defs =
  serve_all_def post_inbound_def put_inbound_def delete_inbound_def post_outbound_def
  put_outbound_def delete_outbound_def next_id_def find_record_def

lemma history_A_tables:
  "inboundRecord (serve_all history_A empty_db) = [inbound_X10]"
  "outboundRecord (serve_all history_A empty_db) = [outbound_X3]"
  by (simp_all add: history_A_def route_defs service_defs empty_db_def inbound_X10_def
        outbound_X3_def)

lemma history_B_tables:
  "inboundRecord (serve_all history_B empty_db) = [inbound_X10]"
  "outboundRecord (serve_all history_B empty_db) = [outbound_X3]"
  by (simp_all add: history_B_def route_defs service_defs empty_db_def inbound_X10_def
        outbound_X3_def inbound_Y4_def inbound_zero_def)

lemma history_B_inventory:
  "inventory (serve_all history_B empty_db) ''X'' = Some 7"
  "inventory (serve_all history_B empty_db) ''Y'' = Some 0"
  "fst (recalculateAll (\<lambda>s. s) ''2024-02-01'' False (serve_all history_B empty_db)) = Inr (2, 1)"
  "inventory (snd (recalculateAll (\<lambda>s. s) ''2024-02-01'' False (serve_all history_B empty_db))) ''Y'' = None"
  by code_simp+

text \<open>
  For source records none of which names a member of \<open>Object.prototype\<close>: after any sequence
  of requests served from the empty database, the full recalculation, run on the source
  records with whatever inventory and ledger, succeeds and gives every product the quantity
  that incremental maintenance gave it; and two sequences that end with the same source data
  (the product and quantity of every record), whatever their order, give every product the
  same quantity.  The quantity of a product is read with \<open>projection_quantity\<close>: a product all
  of whose records are gone keeps a row of quantity 0 under incremental maintenance and has no
  row after the recalculation (\<open>history_B_inventory\<close>).
\<close>

lemma rebuild_regular_equals_incremental:
  assumes "regular_tables (serve_all rs empty_db)"
  shows "\<exists>r d'. recalculateAll collate now False
                  ((serve_all rs empty_db)\<lparr>inventory := i, inventoryLedger := l\<rparr>) = (Inr r, d')
               \<and> (\<forall>p. projection_quantity d' p = projection_quantity (serve_all rs empty_db) p)"
proof -
  have "maintained (serve_all rs empty_db)"
    by (rule serve_all_maintained [OF empty_db_maintained])
  from maintained_rebuild_quantity [OF this assms, where collate = collate and now = now
      and i = i and l = l]
  show ?thesis by blast
qed

lemma incremental_order_independent:
  assumes "image_mset stock_data (mset (inboundRecord (serve_all rs empty_db)))
      = image_mset stock_data (mset (inboundRecord (serve_all rs' empty_db)))"
    and "image_mset stock_data (mset (outboundRecord (serve_all rs empty_db)))
      = image_mset stock_data (mset (outboundRecord (serve_all rs' empty_db)))"
  shows "projection_quantity (serve_all rs empty_db) p
      = projection_quantity (serve_all rs' empty_db) p"
proof -
  have m: "maintained (serve_all qs empty_db)" for qs
    by (rule serve_all_maintained [OF empty_db_maintained])
  from assms show ?thesis
    by (simp add: maintained_quantity [OF m])
qed

text \<open>
  C2, where the code departs from it.  An inbound record of 5 of a product named
  \<open>__proto__\<close> is created: incremental maintenance gives the product the quantity 5.  The full
  recalculation of that database writes the ledger row and no inventory row at all, so the
  product has the quantity 0.  With a product named \<open>constructor\<close> the quantity is again 5
  under incremental maintenance, and the full recalculation fails, leaving the database as it
  was.
\<close>

theorem rebuild_prototype_names:
  "projection_quantity (serve_all history_proto empty_db) ''__proto__'' = 5 \<and>
   fst (recalculateAll (\<lambda>s. s) ''2024-02-01'' False (serve_all history_proto empty_db))
     = Inr (1, 0) \<and>
   inventory (snd (recalculateAll (\<lambda>s. s) ''2024-02-01'' False
                     (serve_all history_proto empty_db))) ''__proto__'' = None \<and>
   projection_quantity (snd (recalculateAll (\<lambda>s. s) ''2024-02-01'' False
                               (serve_all history_proto empty_db))) ''__proto__'' = 0 \<and>
   projection_quantity (serve_all history_constructor empty_db) ''constructor'' = 5 \<and>
   fst (recalculateAll (\<lambda>s. s) ''2024-02-01'' False (serve_all history_constructor empty_db))
     = Inl ValidationError"
  by code_simp

section \<open>Division by zero\<close>

text \<open>
  C9.  Whatever the dividend, \<open>divide\<close> throws its division-by-zero error when the divisor
  is null, undefined, or anything that \<open>decimal\<close> reads as zero; the result is the error and
  no number.  The divisor is examined before the dividend is read, so this holds of a dividend
  that cannot be read as well.
\<close>

theorem divide_by_zero:
  "divide parse a Null = Inl DivisionByZero \<and>
   divide parse a Undefined = Inl DivisionByZero \<and>
   (decimal parse b = Inr (Finite 0) \<longrightarrow> divide parse a b = Inl DivisionByZero)"
  by (simp add: divide_def)

theorem divide_by_zero_witness:
  "decimal parse_zero (Number (Finite 0)) = Inr (Finite 0) \<and>
   decimal parse_zero (String ''0'') = Inr (Finite 0) \<and>
   divide parse_zero (Number (Finite 7)) (Number (Finite 0)) = Inl DivisionByZero \<and>
   divide parse_zero (String ''seven'') (String ''0'') = Inl DivisionByZero \<and>
   divide parse_zero (Number (Finite 7)) Null = Inl DivisionByZero"
  using divide_by_zero [of parse_zero "Number (Finite 7)" "Number (Finite 0)"]
    divide_by_zero [of parse_zero "String ''seven''" "String ''0''"]
  by (simp add: parse_zero_def)

text \<open>
  What the guard keeps out: the library's own division of a number by zero is an infinity or
  NaN.  A division by a non-zero divisor returns the quotient.
\<close>

lemma unguarded_division:
  "div_decimal (Finite 7) (Finite 0) = Infinite False"
  "div_decimal (Finite 0) (Finite 0) = NaN"
  by simp_all

lemma guarded_division:
  "divide parse_zero (Number (Finite 7)) (Number (Finite 2)) = Inr (Finite (7 / 2))"
  by code_simp

section \<open>The loop over the batches of a product\<close>

lemma positive_batches_Cons [simp]:
  "positive_batches (b # bs) \<longleftrightarrow> 0 < quantity_remaining b \<and> positive_batches bs"
  "positive_batches []"
  by (simp_all add: positive_batches_def)

lemma total_remaining_simps [simp]:
  "total_remaining [] = 0"
  "total_remaining (b # bs) = quantity_remaining b + total_remaining bs"
  by (simp_all add: total_remaining_def)

lemma total_remaining_nonneg: "positive_batches bs \<Longrightarrow> 0 \<le> total_remaining bs"
  by (induction bs) auto

lemma consume_batches_independent:
  "fst (consume c bs q k) = fst (consume c' bs q k') \<and>
   fst (snd (consume c bs q k)) = fst (snd (consume c' bs q k'))"
proof (induction c bs q k arbitrary: k' rule: consume.induct)
  case (1 counted qtyToFulfill currentRecordCost)
  show ?case by simp
next
  case (2 counted batch batches qtyToFulfill currentRecordCost)
  show ?case
  proof (cases "0 < qtyToFulfill")
    case False
    then show ?thesis by simp
  next
    case True
    define take where "take = min (quantity_remaining batch) qtyToFulfill"
    define cost where "cost = (if counted
                     then add currentRecordCost
                            (multiply (Finite (of_int take)) (Finite (batch_unit_price batch)))
                     else currentRecordCost)"
    define cost' where "cost' = (if c'
                     then add k'
                            (multiply (Finite (of_int take)) (Finite (batch_unit_price batch)))
                     else k')"
    show ?thesis
    proof (cases "quantity_remaining batch - take \<le> 0")
      case le: True
      from "2.IH"(1) [OF True take_def cost_def le, of cost'] True le
      show ?thesis
        by (simp add: Let_def take_def [symmetric] cost_def [symmetric] cost'_def [symmetric])
    next
      case gt: False
      from "2.IH"(2) [OF True take_def cost_def gt, of cost'] True gt
      show ?thesis
        by (simp add: Let_def take_def [symmetric] cost_def [symmetric] cost'_def [symmetric])
    qed
  qed
qed

lemma consume_uncounted_cost: "snd (snd (consume False bs q k)) = k"
  by (induction "False" bs q k rule: consume.induct) (auto simp: Let_def)

lemma consume_positive:
  "positive_batches bs \<Longrightarrow> positive_batches (fst (consume c bs q k))"
  by (induction c bs q k rule: consume.induct)
     (auto simp: Let_def)

lemma consume_uncounted_total:
  "positive_batches bs \<Longrightarrow> 0 \<le> q \<Longrightarrow>
   total_remaining (fst (consume False bs q k)) = total_remaining bs - min q (total_remaining bs)
   \<and> fst (snd (consume False bs q k)) = q - min q (total_remaining bs)"
proof (induction "False" bs q k rule: consume.induct)
  case (1 qtyToFulfill currentRecordCost)
  then show ?case by simp
next
  case (2 batch batches qtyToFulfill currentRecordCost)
  from "2.prems" have pos: "0 < quantity_remaining batch" "positive_batches batches"
    and nn: "0 \<le> total_remaining batches"
    by (auto dest: total_remaining_nonneg)
  show ?case
  proof (cases "0 < qtyToFulfill")
    case False
    with "2.prems" nn pos show ?thesis by simp
  next
    case True
    show ?thesis
    proof (cases "quantity_remaining batch \<le> qtyToFulfill")
      case le: True
      then have m: "min (quantity_remaining batch) qtyToFulfill = quantity_remaining batch"
        by simp
      have "total_remaining (fst (consume False batches (qtyToFulfill - quantity_remaining batch)
                currentRecordCost))
            = total_remaining batches
                - min (qtyToFulfill - quantity_remaining batch) (total_remaining batches)
          \<and> fst (snd (consume False batches (qtyToFulfill - quantity_remaining batch)
                currentRecordCost))
            = qtyToFulfill - quantity_remaining batch
                - min (qtyToFulfill - quantity_remaining batch) (total_remaining batches)"
        using "2.hyps"(1) [OF True refl refl _ pos(2)] le m by simp
      with True le m show ?thesis
        by (simp add: Let_def min_def)
    next
      case gt: False
      then have m: "min (quantity_remaining batch) qtyToFulfill = qtyToFulfill"
        by simp
      from True gt m nn show ?thesis
        by (simp add: Let_def min_def)
    qed
  qed
qed

lemma consume_total:
  assumes "positive_batches bs" and "0 \<le> q"
  shows "total_remaining (fst (consume c bs q k)) = total_remaining bs - min q (total_remaining bs)"
    and "fst (snd (consume c bs q k)) = q - min q (total_remaining bs)"
  using consume_uncounted_total [OF assms, of k] consume_batches_independent [of c bs q k False k]
  by simp_all

lemma consume_oversold_counted:
  "positive_batches bs \<Longrightarrow> total_remaining bs \<le> q \<Longrightarrow>
   consume True bs q k = ([], q - total_remaining bs, batch_cost bs k)"
proof (induction "True" bs q k rule: consume.induct)
  case (1 qtyToFulfill currentRecordCost)
  then show ?case by (simp add: batch_cost_def)
next
  case (2 batch batches qtyToFulfill currentRecordCost)
  from "2.prems" have pos: "0 < quantity_remaining batch" "positive_batches batches"
    and nn: "0 \<le> total_remaining batches"
    by (auto dest: total_remaining_nonneg)
  from "2.prems" nn pos have q: "0 < qtyToFulfill" "quantity_remaining batch \<le> qtyToFulfill"
    "total_remaining batches \<le> qtyToFulfill - quantity_remaining batch"
    by auto
  have m: "min (quantity_remaining batch) qtyToFulfill = quantity_remaining batch"
    using q by simp
  show ?case
    using "2.hyps"(1) [OF q(1) refl refl] q m pos
    by (simp add: Let_def batch_cost_def)
qed

lemma consume_oversold:
  assumes "positive_batches bs" and "total_remaining bs \<le> q"
  shows "consume c bs q k = ([], q - total_remaining bs, if c then batch_cost bs k else k)"
proof (cases c)
  case True
  with assms show ?thesis by (simp add: consume_oversold_counted)
next
  case False
  have "consume False bs q k = (fst (consume True bs q k), fst (snd (consume True bs q k)), k)"
    using consume_batches_independent [of False bs q k True k] consume_uncounted_cost [of bs q k]
    by (simp add: prod_eq_iff)
  with False assms show ?thesis by (simp add: consume_oversold_counted)
qed

section \<open>Costs are not negative when prices are not\<close>

lemma pow10_pos: "0 < pow10 k"
  by (simp add: pow10_def)

lemma round_half_up_nonneg: "0 \<le> x \<Longrightarrow> 0 \<le> round_half_up x"
  by (simp add: round_half_up_def)

lemma finalise_nonneg: "0 \<le> x \<Longrightarrow> 0 \<le> finalise sd x"
proof (cases "x = 0")
  case True
  then show ?thesis by (simp add: finalise_def)
next
  case False
  assume "0 \<le> x"
  define k where "k = exponent10 x - (int sd - 1)"
  from \<open>0 \<le> x\<close> pow10_pos [of k] have "0 \<le> x / pow10 k"
    by (intro divide_nonneg_pos)
  then have "0 \<le> rat_of_int (round_half_up (x / pow10 k))"
    by (simp add: round_half_up_nonneg)
  with pow10_pos [of k] have "0 \<le> rat_of_int (round_half_up (x / pow10 k)) * pow10 k"
    by (intro mult_nonneg_nonneg) simp_all
  with False show ?thesis by (simp add: finalise_def Let_def k_def)
qed

lemma batch_cost_nonneg:
  assumes "positive_batches bs" and "list_all (\<lambda>b. 0 \<le> batch_unit_price b) bs" and "0 \<le> c"
  shows "\<exists>c'\<ge>0. batch_cost bs (Finite c) = Finite c'"
  using assms
proof (induction bs arbitrary: c)
  case Nil
  then show ?case by (simp add: batch_cost_def)
next
  case (Cons b bs)
  let ?c = "finalise precision
              (c + finalise precision (rat_of_int (quantity_remaining b) * batch_unit_price b))"
  from Cons.prems have "0 \<le> rat_of_int (quantity_remaining b) * batch_unit_price b"
    by (intro mult_nonneg_nonneg) auto
  with Cons.prems have "0 \<le> ?c"
    by (intro finalise_nonneg add_nonneg_nonneg)
  with Cons.IH [of ?c] Cons.prems show ?case
    by (simp add: batch_cost_def add_def multiply_def)
qed

lemma pow2_pos: "0 < pow2 k"
  by (simp add: pow2_def)

lemma round_half_even_nonneg: "0 \<le> x \<Longrightarrow> 0 \<le> round_half_even x"
  by (simp add: round_half_even_def Let_def)

lemma parseFloat_nonneg:
  assumes "0 \<le> x"
  shows "(\<exists>y\<ge>0. parseFloat x = Finite y) \<or> parseFloat x = Infinite False"
proof (cases "x = 0")
  case True
  then show ?thesis by (simp add: parseFloat_def)
next
  case False
  define k where "k = max (exponent2 x) (- 1022) - 52"
  define y where "y = rat_of_int (round_half_even (x / pow2 k)) * pow2 k"
  from assms pow2_pos [of k] have "0 \<le> x / pow2 k"
    by (intro divide_nonneg_pos)
  then have "0 \<le> rat_of_int (round_half_even (x / pow2 k))"
    by (simp add: round_half_even_nonneg)
  with pow2_pos [of k] have "0 \<le> y"
    unfolding y_def by (intro mult_nonneg_nonneg) simp_all
  moreover from assms have "\<not> x < 0" by simp
  ultimately show ?thesis
    using False by (simp add: parseFloat_def Let_def k_def [symmetric] y_def [symmetric])
qed

lemma toFixed_nonneg: "0 \<le> x \<Longrightarrow> 0 \<le> toFixed x dp"
  by (simp add: toFixed_def round_half_up_nonneg)

lemma toNumber_nonneg:
  "0 \<le> c \<Longrightarrow> (\<exists>c'\<ge>0. toNumber (Finite c) dp = Finite c') \<or> toNumber (Finite c) dp = Infinite False"
  by (simp add: parseFloat_nonneg toFixed_nonneg)

section \<open>One turn of the matcher\<close>

lemma inherited_X [simp]: "inherited ''X'' = None"
  by (simp add: inherited_def object_prototype_def)

lemma process_outbound_step:
  assumes "\<not> skipped r" and "inherited (the (product_model r)) = None"
  shows "process_outbound s e maps r (st, rows) =
     (case consume (in_period s e r \<and> resolve_partner maps r \<noteq> None) (queue_of st r)
             (the (quantity r)) (Finite 0) of
        (bs', q', cost) \<Rightarrow>
          Inr (with_queue st r bs',
               if in_period s e r \<and> resolve_partner maps r \<noteq> None
               then rows @ [processed r cost (the (resolve_partner maps r))] else rows))"
  using assms
  by (simp add: process_outbound_def Let_def queue_of_def with_queue_def split: option.splits)

lemma process_uncounted:
  assumes "\<not> skipped r" and "inherited (the (product_model r)) = None"
    and "\<not> (in_period s e r \<and> resolve_partner maps r \<noteq> None)"
  shows "process_outbound s e maps r (st, rows) =
           Inr (with_queue st r (fst (consume True (queue_of st r) (the (quantity r)) (Finite 0))),
                rows)"
proof -
  from assms(3) have c: "(in_period s e r \<and> resolve_partner maps r \<noteq> None) = False"
    by simp
  show ?thesis
    unfolding process_outbound_step [OF assms(1,2)] c
    using consume_batches_independent [of False "queue_of st r" "the (quantity r)" "Finite 0"
        True "Finite 0"]
    by (simp add: case_prod_beta)
qed

section \<open>Whole runs of the matcher\<close>

lemma fifo_arith:
  "multiply (Finite 10) (Finite 5) = Finite 50"
  "add (Finite 0) (Finite 50) = Finite 50"
  "multiply (Finite 5) (Finite 8) = Finite 40"
  "add (Finite 50) (Finite 40) = Finite 90"
  "toNumber (Finite 90) 2 = Finite 90"
  by code_simp+

lemmas fifo_defs =
  calculateFIFOData_def fifo_simulation_def process_outbound_def seed_def partner_maps_def
  resolve_partner_def in_period_def processed_def positive_quantity_def dated_up_to_def
  skipped_def falsy_string_def falsy_number_def number_of_def

lemma date_order:
  "''2024-01-01'' < ''2024-02-01''"
  "''2024-03-01'' \<le> ''2024-03-15''"
  "''2024-03-15'' \<le> ''2024-03-31''"
  "''2024-02-15'' < ''2024-03-01''"
  "''2024-02-15'' \<le> ''2024-03-31''"
  by simp_all

lemma truncate_processed: "outbound_record.truncate (processed r c p) = r"
  by (cases r) (simp add: processed_def outbound_record.truncate_def)

lemma process_outbound_rows:
  assumes "process_outbound s e maps r (st, rows) = Inr (st', rows')"
  shows "rows' = rows \<or> in_period s e r \<and> (\<exists>c p. rows' = rows @ [processed r c p])"
  using assms
  by (auto simp: process_outbound_def Let_def case_prod_beta
        split: if_splits option.splits)

lemma for_each_process_rows:
  assumes "for_each (process_outbound s e maps) rs (st, rows) = Inr (st', rows')"
    and "row \<in> set rows'"
  shows "row \<in> set rows \<or> (\<exists>r\<in>set rs. in_period s e r \<and> outbound_record.truncate row = r)"
  using assms
proof (induction rs arbitrary: st rows)
  case Nil
  then show ?case by simp
next
  case (Cons r rs)
  from Cons.prems(1) obtain st1 rows1
    where step: "process_outbound s e maps r (st, rows) = Inr (st1, rows1)"
      and rest: "for_each (process_outbound s e maps) rs (st1, rows1) = Inr (st', rows')"
    by (auto split: sum.splits)
  from Cons.IH [OF rest Cons.prems(2)]
  consider "row \<in> set rows1" | "\<exists>r\<in>set rs. in_period s e r \<and> outbound_record.truncate row = r"
    by blast
  then show ?case
  proof cases
    case 1
    with process_outbound_rows [OF step] show ?thesis
      by (auto simp: truncate_processed)
  next
    case 2
    then show ?thesis by auto
  qed
qed

text \<open>Every row of a result is an outbound record dated within the period.\<close>

lemma rows_in_period:
  assumes "calculateFIFOData s e d = Inr rows" and "row \<in> set rows"
  shows "in_period s e (outbound_record.truncate row)"
proof -
  from assms(1) obtain st0 st where
    "for_each (process_outbound s e (partner_maps (partner d)))
       (sort_key (\<lambda>r. (outbound_date r, record_id r))
          (filter (\<lambda>r. positive_quantity r \<and> dated_up_to e r) (outboundRecord d)))
       (st0, []) = Inr (st, rows)"
    by (auto simp: calculateFIFOData_def fifo_simulation_def Let_def split: sum.splits)
  from for_each_process_rows [OF this assms(2)] show ?thesis by auto
qed

text \<open>
  Records dated after \<open>endDate\<close> are left out by the query: without them the run is the same.
\<close>

lemma later_records_excluded:
  "fifo_simulation s e (d\<lparr>outboundRecord := filter (dated_up_to e) (outboundRecord d)\<rparr>)
     = fifo_simulation s e d"
proof -
  have "filter (\<lambda>r. positive_quantity r \<and> dated_up_to e r) (filter (dated_up_to e) xs)
      = filter (\<lambda>r. positive_quantity r \<and> dated_up_to e r) xs" for xs
    by (induction xs) auto
  then show ?thesis by (simp add: fifo_simulation_def)
qed

lemma seed_positive:
  assumes "seed r st = Inr st'" and "positive_state st" and "positive_quantity r"
  shows "positive_state st'"
  using assms
  by (auto simp: positive_state_def seed_def positive_quantity_def positive_batches_def Let_def
        split: option.splits if_splits)

lemma for_each_seed_positive:
  assumes "for_each seed rs st = Inr st'" and "positive_state st"
    and "\<forall>r\<in>set rs. positive_quantity r"
  shows "positive_state st'"
  using assms
proof (induction rs arbitrary: st)
  case Nil
  then show ?case by simp
next
  case (Cons r rs)
  from Cons.prems(1) obtain st1 where step: "seed r st = Inr st1"
    and rest: "for_each seed rs st1 = Inr st'"
    by (auto split: sum.splits)
  from step Cons.prems(2,3) have "positive_state st1"
    by (intro seed_positive [OF step]) simp_all
  with Cons.IH [OF rest] Cons.prems(3) show ?case by simp
qed

lemma process_outbound_positive:
  assumes "process_outbound s e maps r (st, rows) = Inr (st', rows')" and "positive_state st"
  shows "positive_state st'"
proof -
  have "positive_batches (fst (consume c bs q k))" if "st (the (product_model r)) = Some bs"
    for c bs q k
  proof -
    from that assms(2) have "positive_batches bs" by (auto simp: positive_state_def)
    then show ?thesis by (rule consume_positive)
  qed
  with assms show ?thesis
    by (auto simp: process_outbound_def Let_def case_prod_beta positive_state_def
          split: if_splits option.splits)
qed

lemma for_each_process_positive:
  assumes "for_each (process_outbound s e maps) rs (st, rows) = Inr (st', rows')"
    and "positive_state st"
  shows "positive_state st'"
  using assms
proof (induction rs arbitrary: st rows)
  case Nil
  then show ?case by simp
next
  case (Cons r rs)
  from Cons.prems(1) obtain st1 rows1
    where step: "process_outbound s e maps r (st, rows) = Inr (st1, rows1)"
      and rest: "for_each (process_outbound s e maps) rs (st1, rows1) = Inr (st', rows')"
    by (auto split: sum.splits)
  from process_outbound_positive [OF step Cons.prems(2)] have "positive_state st1" .
  from Cons.IH [OF rest this] show ?case .
qed

text \<open>No queue that a run leaves holds a batch that is used up.\<close>

lemma fifo_simulation_positive:
  assumes "fifo_simulation s e d = Inr (st, rows)"
  shows "positive_state st"
proof -
  from assms obtain st0 where
    seeded: "for_each seed (sort_key (\<lambda>r. (inbound_date r, record_id r))
                             (filter positive_quantity (inboundRecord d))) Map.empty = Inr st0"
    and served: "for_each (process_outbound s e (partner_maps (partner d)))
       (sort_key (\<lambda>r. (outbound_date r, record_id r))
          (filter (\<lambda>r. positive_quantity r \<and> dated_up_to e r) (outboundRecord d)))
       (st0, []) = Inr (st, rows)"
    by (auto simp: fifo_simulation_def Let_def split: sum.splits)
  from seeded have "positive_state st0"
    by (rule for_each_seed_positive) (simp_all add: positive_state_def)
  with served show ?thesis by (rule for_each_process_positive)
qed

lemmas example_defs =
  acme_def sale_def purchase_def stock_X_def queue_of_def with_queue_def positive_batches_def
  total_remaining_def

lemma stock_X_cost:
  "batch_cost [\<lparr>quantity_remaining = 10, batch_unit_price = 5\<rparr>,
               \<lparr>quantity_remaining = 10, batch_unit_price = 8\<rparr>] (Finite 0) = Finite 130"
  "toNumber (Finite 130) 2 = Finite 130"
  by code_simp+

lemma example_hypotheses:
  "\<not> skipped (sale i 25 dt c)"
  "\<not> falsy_string (product_model (sale i q dt c))"
  "the (product_model (sale i q dt c)) = ''X''"
  "positive_quantity (sale i 15 dt c)"
  "queue_of stock_X (sale i q dt c)
     = [\<lparr>quantity_remaining = 10, batch_unit_price = 5\<rparr>,
        \<lparr>quantity_remaining = 10, batch_unit_price = 8\<rparr>]"
  "positive_batches (queue_of stock_X (sale i q dt c))"
  "total_remaining (queue_of stock_X (sale i q dt c)) = 20"
  "in_period ''2024-03-01'' ''2024-03-31'' (sale i q ''2024-03-15'' c)"
  "resolve_partner (partner_maps [acme]) (sale i q dt ''C1'') = Some acme"
  "resolve_partner (partner_maps [acme]) (sale i q dt ''ZZ'') = None"
  by (simp_all add: example_defs skipped_def falsy_string_def falsy_number_def
        positive_quantity_def in_period_def resolve_partner_def partner_maps_def)

section \<open>Properties of the cost matcher\<close>

text \<open>
  C4.  Two inbound batches of product \<open>X\<close>, 10 at unit cost 5 dated \<open>D1\<close> and 10 at unit
  cost 8 dated \<open>D2\<close> with \<open>D1 < D2\<close>, and one outbound record of 15 dated \<open>D3\<close> within the
  requested period, for a known partner: the run succeeds, the record is given the cost
  \<open>10 * 5 + 5 * 8 = 90\<close>, and what is left in the queue is 5 of the newer batch.  (All inbound
  batches are queued before any outbound record is served, so \<open>D3\<close> need not be later than
  \<open>D2\<close> for this.)
\<close>

theorem fifo_two_batches:
  assumes "D1 < D2" and "startDate \<le> D3" and "D3 \<le> endDate"
  shows "(\<exists>rows. calculateFIFOData startDate endDate (two_batches D1 D2 D3) = Inr rows \<and>
                 map cost_amount rows = [Finite 90]) \<and>
         (\<exists>st rows. fifo_simulation startDate endDate (two_batches D1 D2 D3) = Inr (st, rows) \<and>
                    st ''X'' = Some [\<lparr>quantity_remaining = 5, batch_unit_price = 8\<rparr>])"
  using assms
  by (simp add: two_batches_def empty_db_def fifo_defs fifo_arith Let_def
        less_eq_prod_def less_prod_def less_le_not_le
           del: toNumber.simps)

theorem fifo_two_batches_witness:
  "''2024-01-01'' < ''2024-02-01'' \<and> ''2024-03-01'' \<le> ''2024-03-15'' \<and>
   ''2024-03-15'' \<le> ''2024-03-31'' \<and>
   (\<exists>rows. calculateFIFOData ''2024-03-01'' ''2024-03-31''
             (two_batches ''2024-01-01'' ''2024-02-01'' ''2024-03-15'') = Inr rows \<and>
           map cost_amount rows = [Finite 90])"
  using fifo_two_batches [of "''2024-01-01''" "''2024-02-01''" "''2024-03-01''" "''2024-03-15''"
      "''2024-03-31''"]
  by (simp add: date_order)

text \<open>
  An outbound record dated before \<open>startDate\<close>, of a product whose model is no name of a
  member of \<open>Object.prototype\<close>, is served from the queue
  of its product like any other record (the queue is left as a counted record would leave it,
  shorter by what could be fulfilled) and adds no row to the result.
\<close>

lemma before_start_regular:
  assumes "\<not> falsy_string (product_model r)" and "positive_quantity r"
    and "inherited (the (product_model r)) = None"
    and "positive_batches (queue_of st r)"
    and "outbound_date r = Some dt" and "dt < startDate"
  shows "process_outbound startDate endDate maps r (st, rows) =
           Inr (with_queue st r (fst (consume True (queue_of st r) (the (quantity r)) (Finite 0))),
                rows)"
    and "total_remaining (fst (consume True (queue_of st r) (the (quantity r)) (Finite 0)))
           = total_remaining (queue_of st r)
               - min (the (quantity r)) (total_remaining (queue_of st r))"
proof -
  from assms(1,2) have ns: "\<not> skipped r" and q: "0 \<le> the (quantity r)"
    by (auto simp: skipped_def positive_quantity_def falsy_number_def split: option.splits)
  from assms(5,6) have np: "\<not> in_period startDate endDate r"
    by (auto simp: in_period_def)
  then show "process_outbound startDate endDate maps r (st, rows) =
           Inr (with_queue st r (fst (consume True (queue_of st r) (the (quantity r)) (Finite 0))),
                rows)"
    using ns assms(3) by (simp add: process_uncounted)
  from consume_total(1) [OF assms(4) q]
  show "total_remaining (fst (consume True (queue_of st r) (the (quantity r)) (Finite 0)))
           = total_remaining (queue_of st r)
               - min (the (quantity r)) (total_remaining (queue_of st r))" .
qed

text \<open>
  The cost of a later record depends on the earlier one: with the sale of 10 dated before the
  period the sale of 5 within it costs \<open>5 * 8\<close>, without it \<open>5 * 5\<close>.
\<close>

lemma earlier_record_shifts_cost:
  "map_sum id (map (\<lambda>row. (record_id row, cost_amount row)))
     (calculateFIFOData ''2024-03-01'' ''2024-03-31'' two_sales_db) = Inr [(2, Finite 40)]"
  "map_sum id (map (\<lambda>row. (record_id row, cost_amount row)))
     (calculateFIFOData ''2024-03-01'' ''2024-03-31''
        (two_sales_db\<lparr>outboundRecord := tl (outboundRecord two_sales_db)\<rparr>))
     = Inr [(2, Finite 25)]"
  by code_simp+

text \<open>
  C5, where the code departs from it.  Ten units of a product named \<open>constructor\<close> are sold on
  a date before \<open>startDate\<close>; five units of product \<open>X\<close>, of which twenty are queued, are sold
  within the period.  The run ends with a TypeError when it serves the first record: it
  returns no list, and the later record is given no cost.  Without the first record the run
  succeeds, and the later record costs \<open>5 * 5\<close>.
\<close>

theorem before_start_type_error:
  "dated_up_to ''2024-03-31'' (hd (outboundRecord early_constructor_db)) \<and>
   \<not> in_period ''2024-03-01'' ''2024-03-31'' (hd (outboundRecord early_constructor_db)) \<and>
   calculateFIFOData ''2024-03-01'' ''2024-03-31'' early_constructor_db = Inl TypeError \<and>
   map_sum id (map (\<lambda>row. (record_id row, cost_amount row)))
     (calculateFIFOData ''2024-03-01'' ''2024-03-31''
        (early_constructor_db\<lparr>outboundRecord := tl (outboundRecord early_constructor_db)\<rparr>))
     = Inr [(2, Finite 25)]"
  by code_simp

text \<open>
  C6, as the code has it.  An outbound record within the period and for a known partner,
  of a product whose model is no name of a member of \<open>Object.prototype\<close>, whose quantity
  exceeds what is left in the queue of its product, empties the queue; its cost is the cost of exactly the batches that were queued (the decimal
  calculator's sum of quantity times unit price, over the batches in order), rounded to two
  decimal places and read back as a JavaScript number; the quantity that could not be
  fulfilled adds nothing.  The cost is not negative when no queued batch has a negative unit
  price: it is a number from 0 up, or the positive infinity when the sum is beyond the range
  of a double.  Inbound records with a negative unit price are part of the application's
  data, and then the cost can be negative; see the counterexample below.
\<close>

theorem oversold_cost:
  assumes "\<not> skipped r"
    and "inherited (the (product_model r)) = None"
    and "positive_batches (queue_of st r)"
    and "total_remaining (queue_of st r) < the (quantity r)"
    and "in_period s e r"
    and "resolve_partner maps r = Some p"
  shows "process_outbound s e maps r (st, rows) =
           Inr (with_queue st r [],
                rows @ [processed r (batch_cost (queue_of st r) (Finite 0)) p]) \<and>
         cost_amount (processed r (batch_cost (queue_of st r) (Finite 0)) p)
           = toNumber (batch_cost (queue_of st r) (Finite 0)) 2 \<and>
         (list_all (\<lambda>b. 0 \<le> batch_unit_price b) (queue_of st r) \<longrightarrow>
            (\<exists>c\<ge>0. cost_amount (processed r (batch_cost (queue_of st r) (Finite 0)) p) = Finite c)
            \<or> cost_amount (processed r (batch_cost (queue_of st r) (Finite 0)) p)
                = Infinite False)"
proof -
  have "consume True (queue_of st r) (the (quantity r)) (Finite 0)
      = ([], the (quantity r) - total_remaining (queue_of st r), batch_cost (queue_of st r) (Finite 0))"
    using assms(3,4) by (simp add: consume_oversold)
  with assms have 1: "process_outbound s e maps r (st, rows) =
           Inr (with_queue st r [],
                rows @ [processed r (batch_cost (queue_of st r) (Finite 0)) p])"
    by (simp add: process_outbound_step)
  have 2: "cost_amount (processed r (batch_cost (queue_of st r) (Finite 0)) p)
           = toNumber (batch_cost (queue_of st r) (Finite 0)) 2"
    by (simp add: processed_def)
  have 3: "(\<exists>c\<ge>0. cost_amount (processed r (batch_cost (queue_of st r) (Finite 0)) p) = Finite c)
            \<or> cost_amount (processed r (batch_cost (queue_of st r) (Finite 0)) p)
                = Infinite False"
    if "list_all (\<lambda>b. 0 \<le> batch_unit_price b) (queue_of st r)"
  proof -
    from batch_cost_nonneg [OF assms(3) that, of 0]
    obtain c where "0 \<le> c" "batch_cost (queue_of st r) (Finite 0) = Finite c" by auto
    with toNumber_nonneg [of c 2] show ?thesis
      by (auto simp: processed_def simp del: toNumber.simps)
  qed
  from 1 2 3 show ?thesis by blast
qed

theorem oversold_cost_witness:
  "\<not> skipped (sale 1 25 ''2024-03-15'' ''C1'') \<and>
   inherited (the (product_model (sale 1 25 ''2024-03-15'' ''C1''))) = None \<and>
   positive_batches (queue_of stock_X (sale 1 25 ''2024-03-15'' ''C1'')) \<and>
   total_remaining (queue_of stock_X (sale 1 25 ''2024-03-15'' ''C1''))
     < the (quantity (sale 1 25 ''2024-03-15'' ''C1'')) \<and>
   in_period ''2024-03-01'' ''2024-03-31'' (sale 1 25 ''2024-03-15'' ''C1'') \<and>
   resolve_partner (partner_maps [acme]) (sale 1 25 ''2024-03-15'' ''C1'') = Some acme \<and>
   process_outbound ''2024-03-01'' ''2024-03-31'' (partner_maps [acme])
       (sale 1 25 ''2024-03-15'' ''C1'') (stock_X, [])
     = Inr (stock_X(''X'' \<mapsto> []),
            [processed (sale 1 25 ''2024-03-15'' ''C1'') (Finite 130) acme]) \<and>
   cost_amount (processed (sale 1 25 ''2024-03-15'' ''C1'') (Finite 130) acme) = Finite 130"
proof -
  have q: "the (quantity (sale 1 25 ''2024-03-15'' ''C1'')) = 25"
    by (simp add: sale_def)
  have w: "with_queue stock_X (sale 1 25 ''2024-03-15'' ''C1'') [] = stock_X(''X'' \<mapsto> [])"
    by (simp add: example_defs)
  show ?thesis
    using oversold_cost [of "sale 1 25 ''2024-03-15'' ''C1''" stock_X "''2024-03-01''"
        "''2024-03-31''" "partner_maps [acme]" acme "[]"]
    by (simp add: example_hypotheses q w stock_X_cost del: toNumber.simps)
qed

text \<open>
  Five units bought at a unit price of \<open>-2\<close> and a sale of ten: the cost is \<open>-10\<close>.
\<close>

theorem negative_unit_price_counterexample:
  "map_sum id (map cost_amount)
     (calculateFIFOData ''2024-03-01'' ''2024-03-31'' negative_price_db) = Inr [Finite (- 10)]"
  by code_simp

text \<open>
  An outbound record within the period, of a product whose model is no name of a member of
  \<open>Object.prototype\<close>, whose customer code and customer short name both resolve to no
  partner is served from the queue like any other record: the
  queue is left as a counted record would leave it, shorter by the whole quantity that could
  be fulfilled.  The loop run for it ends with the cost zero, and no row is added to the
  result.
\<close>

lemma unresolved_partner_regular:
  assumes "\<not> falsy_string (product_model r)" and "positive_quantity r"
    and "inherited (the (product_model r)) = None"
    and "positive_batches (queue_of st r)"
    and "resolve_partner maps r = None"
  shows "process_outbound s e maps r (st, rows) =
           Inr (with_queue st r (fst (consume True (queue_of st r) (the (quantity r)) (Finite 0))),
                rows)"
    and "total_remaining (fst (consume True (queue_of st r) (the (quantity r)) (Finite 0)))
           = total_remaining (queue_of st r) - min (the (quantity r)) (total_remaining (queue_of st r))"
    and "snd (snd (consume (in_period s e r \<and> resolve_partner maps r \<noteq> None) (queue_of st r)
                     (the (quantity r)) (Finite 0))) = Finite 0"
proof -
  from assms(1,2) have ns: "\<not> skipped r" and q: "0 \<le> the (quantity r)"
    by (auto simp: skipped_def positive_quantity_def falsy_number_def split: option.splits)
  from ns assms(3,5) show "process_outbound s e maps r (st, rows) =
           Inr (with_queue st r (fst (consume True (queue_of st r) (the (quantity r)) (Finite 0))),
                rows)"
    by (simp add: process_uncounted)
  from consume_total(1) [OF assms(4) q]
  show "total_remaining (fst (consume True (queue_of st r) (the (quantity r)) (Finite 0)))
           = total_remaining (queue_of st r) - min (the (quantity r)) (total_remaining (queue_of st r))" .
  from assms(5)
  show "snd (snd (consume (in_period s e r \<and> resolve_partner maps r \<noteq> None) (queue_of st r)
                     (the (quantity r)) (Finite 0))) = Finite 0"
    by (simp add: consume_uncounted_cost)
qed

text \<open>
  The cost of a later record depends on the record of the unknown customer: after the sale of
  10 to \<open>ZZ\<close>, which is not in the result, the sale of 5 costs \<open>5 * 8\<close>.
\<close>

lemma unknown_customer_shifts_cost:
  "map_sum id (map (\<lambda>row. (record_id row, cost_amount row)))
     (calculateFIFOData ''2024-03-01'' ''2024-03-31'' unknown_customer_db) = Inr [(2, Finite 40)]"
  by code_simp

text \<open>
  C10, where the code departs from it.  Ten units of a product named \<open>constructor\<close> are sold
  within the period to a customer that resolves to no partner; five units of product \<open>X\<close> are
  sold later within the period to a known one.  The run ends with a TypeError when it serves
  the first record: no queue is depleted and there is no result.  Without the first record
  the run succeeds.
\<close>

theorem unresolved_partner_type_error:
  "resolve_partner (partner_maps (partner unknown_constructor_db))
     (hd (outboundRecord unknown_constructor_db)) = None \<and>
   in_period ''2024-03-01'' ''2024-03-31'' (hd (outboundRecord unknown_constructor_db)) \<and>
   calculateFIFOData ''2024-03-01'' ''2024-03-31'' unknown_constructor_db = Inl TypeError \<and>
   map_sum id (map (\<lambda>row. (record_id row, cost_amount row)))
     (calculateFIFOData ''2024-03-01'' ''2024-03-31''
        (unknown_constructor_db\<lparr>outboundRecord := tl (outboundRecord unknown_constructor_db)\<rparr>))
     = Inr [(2, Finite 25)]"
  by code_simp

end
